theory Spec2Isabelle
  imports Main "HOL-Library.Word" "HOL-Library.Monad_Syntax"
begin

unbundle bit_operations_syntax

section \<open>Data model\<close>

text \<open>
  The repository holds an AX.25 frame assembler and packetizer (\<^verbatim>\<open>ax25_packet.c\<close>), a
  Reed--Solomon (255,223) encoder (\<^verbatim>\<open>rs_encoding_binary.c\<close>) and the companion decoder
  (\<^verbatim>\<open>rs_decoding_binary.c\<close>). Bytes (\<^verbatim>\<open>uint8_t\<close>) are 8-bit words, \<^verbatim>\<open>uint16_t\<close> values
  are 16-bit words, arrays are lists that are updated by index, and C \<^verbatim>\<open>int\<close> counters that
  never go negative are natural numbers. Every \<^verbatim>\<open>for\<close> loop without an early exit is a
  \<open>fold\<close> over its index range, in the order the source visits the indices.
\<close>

type_synonym byte = "8 word"

subsection \<open>Reed--Solomon parameters\<close>

definition N :: nat where "N = 255"
definition K :: nat where "K = 223"
definition T :: nat where "T = 16"
definition PARITY :: nat where "PARITY = 32"
definition PRIM_POLY :: "16 word" where "PRIM_POLY = 0x11D"
definition ALPHA :: byte where "ALPHA = 0x02"

subsection \<open>Galois field tables\<close>

text \<open>
  \<^verbatim>\<open>init_galois_field\<close> is the same function in the encoder and in the decoder (the encoder
  also prints a message). The globals \<^verbatim>\<open>gf_exp[512]\<close> and \<^verbatim>\<open>gf_log[256]\<close> start zeroed
  (static storage). \<open>gf_step\<close> is one iteration of the first loop, on the state
  \<open>(gf_exp, gf_log, temp)\<close>.
\<close>

definition gf_step :: "nat \<Rightarrow> byte list \<times> byte list \<times> 16 word \<Rightarrow> byte list \<times> byte list \<times> 16 word" where
  "gf_step i s = (case s of (ex, lg, temp) \<Rightarrow>
     let ex' = ex[i := ucast temp];
         lg' = lg[unat temp := word_of_nat i];
         t1 = push_bit 1 temp;
         t2 = (if t1 AND 0x100 \<noteq> 0 then t1 XOR PRIM_POLY else t1)
     in (ex', lg', t2))"

definition init_galois_field :: "byte list \<times> byte list" where
  "init_galois_field =
     (let (ex, lg, temp) = fold gf_step [0..<255] (replicate 512 0, replicate 256 0, 1);
          ex2 = fold (\<lambda>i e. e[i := e ! (i - 255)]) [255..<512] ex
      in (ex2, lg[0 := 255]))"

definition gf_exp :: "byte list" where "gf_exp = fst init_galois_field"
definition gf_log :: "byte list" where "gf_log = snd init_galois_field"

subsection \<open>Field operations\<close>

text \<open>
  \<^verbatim>\<open>gf_mult\<close> and \<^verbatim>\<open>gf_div\<close> index \<^verbatim>\<open>gf_exp\<close> with a sum of logarithms, which is below
  510 for nonzero operands. \<^verbatim>\<open>gf_div\<close> is the decoder's version, which returns 0 for a zero
  divisor.
\<close>

definition gf_mult :: "byte \<Rightarrow> byte \<Rightarrow> byte" where
  "gf_mult a b = (if a = 0 \<or> b = 0 then 0
                  else gf_exp ! (unat (gf_log ! unat a) + unat (gf_log ! unat b)))"

definition gf_div :: "byte \<Rightarrow> byte \<Rightarrow> byte" where
  "gf_div a b = (if b = 0 then 0
                 else if a = 0 then 0
                 else gf_exp ! (unat (gf_log ! unat a) + 255 - unat (gf_log ! unat b)))"

text \<open>
  The C operator \<^verbatim>\<open>%\<close> truncates towards zero: the remainder has the sign of the dividend.
\<close>

definition c_mod :: "int \<Rightarrow> int \<Rightarrow> int" where
  "c_mod a b = (if a < 0 then - ((- a) mod \<bar>b\<bar>) else a mod \<bar>b\<bar>)"

text \<open>
  \<^verbatim>\<open>gf_pow\<close> takes a signed exponent and indexes \<^verbatim>\<open>gf_exp\<close> with
  \<^verbatim>\<open>(gf_log[base] * exp) % 255\<close>, which is negative for a negative exponent. A read
  outside the 512 entries of the table is undefined behaviour in C; the model returns
  \<open>None\<close> there, and every caller propagates it.
\<close>

definition gf_exp_at :: "int \<Rightarrow> byte option" where
  "gf_exp_at i = (if 0 \<le> i \<and> i < 512 then Some (gf_exp ! nat i) else None)"

definition gf_pow :: "byte \<Rightarrow> int \<Rightarrow> byte option" where
  "gf_pow base e = (if base = 0 then Some (if e = 0 then 1 else 0)
                    else gf_exp_at (c_mod (uint (gf_log ! unat base) * e) 255))"

subsection \<open>Generator polynomial and systematic encoder\<close>

text \<open>
  \<^verbatim>\<open>generate_polynomial\<close> fills the global \<^verbatim>\<open>generator[33]\<close>; \<^verbatim>\<open>rs_encode_block\<close> reads
  it, so the model of the encoder takes it as an argument.
\<close>

definition generate_polynomial :: "byte list option" where
  "generate_polynomial =
     fold (\<lambda>i acc. do {
             g \<leftarrow> acc;
             alpha_i \<leftarrow> gf_pow ALPHA (int i);
             let g' = fold (\<lambda>j g. g[j := g ! (j - 1) XOR gf_mult (g ! j) alpha_i])
                        (rev [1..<i + 2]) g
             in Some (g'[0 := gf_mult (g' ! 0) alpha_i]) })
          [0..<PARITY] (Some ((replicate (PARITY + 1) 0)[0 := 1]))"

definition encode_step :: "byte list \<Rightarrow> byte list \<Rightarrow> nat \<Rightarrow> byte list \<Rightarrow> byte list" where
  "encode_step generator data i remainder =
     (let feedback = data ! i XOR remainder ! (PARITY - 1);
          remainder' = fold (\<lambda>j r. r[j := r ! (j - 1) XOR gf_mult (generator ! j) feedback])
                         (rev [1..<PARITY]) remainder
      in remainder'[0 := gf_mult (generator ! 0) feedback])"

definition rs_encode_block :: "byte list \<Rightarrow> byte list \<Rightarrow> byte list" where
  "rs_encode_block generator data =
     take K data @ fold (encode_step generator data) [0..<K] (replicate PARITY 0)"

subsection \<open>Decoder\<close>

definition syndrome :: "byte list \<Rightarrow> nat \<Rightarrow> byte option" where
  "syndrome received i = do {
     alpha_i \<leftarrow> gf_pow ALPHA (int i);
     fold (\<lambda>j acc. do {
             s \<leftarrow> acc;
             p \<leftarrow> gf_pow alpha_i (int j);
             Some (s XOR gf_mult (received ! j) p) })
          [0..<N] (Some 0) }"

definition compute_syndromes :: "byte list \<Rightarrow> byte list option" where
  "compute_syndromes received = those (map (syndrome received) [0..<PARITY])"

record bm_state =
  lambda :: "byte list"
  prev_lambda :: "byte list"
  deg_lambda :: nat
  deg_prev :: nat

text \<open>One iteration \<open>k\<close> of the main loop of \<^verbatim>\<open>berlekamp_massey\<close>.\<close>

definition bm_step :: "byte list \<Rightarrow> nat \<Rightarrow> bm_state \<Rightarrow> bm_state" where
  "bm_step syndromes k st =
    (let disc = fold (\<lambda>i d. d XOR gf_mult (lambda st ! i) (syndromes ! (k - i)))
                  [1..<deg_lambda st + 1] (syndromes ! k)
     in if disc \<noteq> 0 then
          (let temp = lambda st;
               lam' = fold (\<lambda>i l. if prev_lambda st ! i \<noteq> 0
                                    then (let pos = i + (k - deg_prev st)
                                          in if pos \<le> PARITY
                                             then l[pos := l ! pos XOR gf_mult disc (prev_lambda st ! i)]
                                             else l)
                                    else l)
                        [0..<deg_prev st + 1] (lambda st);
               new_deg = deg_prev st + (k - deg_prev st)
           in if new_deg > deg_lambda st then
                (let inv_disc = gf_exp ! (255 - unat (gf_log ! unat disc))
                 in \<lparr>lambda = lam', prev_lambda = map (\<lambda>x. gf_mult x inv_disc) temp,
                     deg_lambda = new_deg, deg_prev = k - new_deg\<rparr>)
              else st\<lparr>lambda := lam'\<rparr>)
        else st)"

text \<open>
  \<^verbatim>\<open>berlekamp_massey\<close> returns \<^verbatim>\<open>deg_lambda\<close> and leaves the locator in \<^verbatim>\<open>lambda[33]\<close>
  (zeroed by the caller) and the evaluator in \<^verbatim>\<open>omega[32]\<close>.
\<close>

definition berlekamp_massey :: "byte list \<Rightarrow> nat \<times> byte list \<times> byte list" where
  "berlekamp_massey syndromes =
    (let st = fold (bm_step syndromes) [0..<PARITY]
                \<lparr>lambda = (replicate (PARITY + 1) 0)[0 := 1],
                 prev_lambda = (replicate (PARITY + 1) 0)[0 := 1],
                 deg_lambda = 0, deg_prev = 0\<rparr>;
         omega = map (\<lambda>i. fold (\<lambda>j om. om XOR gf_mult (syndromes ! (i - j)) (lambda st ! j))
                          [0..<min (deg_lambda st) i + 1] 0)
                   [0..<PARITY]
     in (deg_lambda st, lambda st, omega))"

text \<open>
  The Chien search evaluates the locator at position \<open>i\<close>: the sum over the nonzero
  coefficients \<open>j \<le> deg_lambda\<close> of \<^verbatim>\<open>gf_mult(lambda[j], gf_pow(ALPHA, (255 - i * j) % 255))\<close>.
\<close>

definition chien_sum :: "byte list \<Rightarrow> nat \<Rightarrow> nat \<Rightarrow> byte option" where
  "chien_sum lam deg i =
     fold (\<lambda>j acc. do {
             s \<leftarrow> acc;
             if lam ! j \<noteq> 0
             then do { p \<leftarrow> gf_pow ALPHA (c_mod (255 - int i * int j) 255);
                       Some (s XOR gf_mult (lam ! j) p) }
             else Some s })
          [0..<deg + 1] (Some 0)"

text \<open>
  The two evaluation loops of the Forney step: the sum over the indices \<open>js\<close> with a nonzero
  coefficient of \<^verbatim>\<open>gf_mult(cs[j], gf_pow(x, ex j))\<close>.
\<close>

definition eval_terms :: "byte list \<Rightarrow> byte \<Rightarrow> (nat \<Rightarrow> int) \<Rightarrow> nat list \<Rightarrow> byte option" where
  "eval_terms cs x ex js =
     fold (\<lambda>j acc. do {
             s \<leftarrow> acc;
             if cs ! j \<noteq> 0
             then do { p \<leftarrow> gf_pow x (ex j); Some (s XOR gf_mult (cs ! j) p) }
             else Some s })
          js (Some 0)"

text \<open>
  The position loop of \<^verbatim>\<open>find_and_correct_errors\<close>, over the positions still to visit,
  with the running \<^verbatim>\<open>error_count\<close> and the \<^verbatim>\<open>corrected\<close> array. The status \<open>-1\<close>
  is the decoder's "uncorrectable" return value.
\<close>

fun find_loop :: "byte list \<Rightarrow> byte list \<Rightarrow> nat \<Rightarrow> nat list \<Rightarrow> nat \<Rightarrow> byte list
    \<Rightarrow> (int \<times> byte list) option" where
  "find_loop lam om deg [] error_count corrected =
     Some (if error_count = deg then int error_count else - 1, corrected)"
| "find_loop lam om deg (i # is) error_count corrected =
     (case chien_sum lam deg i of
        None \<Rightarrow> None
      | Some sm \<Rightarrow>
          if sm = 0 then
            (if error_count + 1 > T then Some (- 1, corrected)
             else do {
               alpha_inv_i \<leftarrow> gf_pow ALPHA (c_mod (255 - int i) 255);
               omega_val \<leftarrow> eval_terms om alpha_inv_i (\<lambda>j. int j) [0..<PARITY];
               lambda_prime \<leftarrow> eval_terms lam alpha_inv_i (\<lambda>j. int j - 1)
                                 (filter odd [1..<deg + 1]);
               find_loop lam om deg is (error_count + 1)
                 (if lambda_prime \<noteq> 0
                  then corrected[i := corrected ! i XOR gf_div omega_val lambda_prime]
                  else corrected) })
          else find_loop lam om deg is error_count corrected)"

definition find_and_correct_errors :: "byte list \<Rightarrow> byte list \<Rightarrow> nat \<Rightarrow> byte list
    \<Rightarrow> (int \<times> byte list) option" where
  "find_and_correct_errors lam om deg corrected = find_loop lam om deg [0..<N] 0 corrected"

definition rs_decode_block :: "byte list \<Rightarrow> (int \<times> byte list) option" where
  "rs_decode_block received = do {
     syndromes \<leftarrow> compute_syndromes received;
     if list_all (\<lambda>s. s = 0) syndromes then Some (0, take N received)
     else (case berlekamp_massey syndromes of
             (deg, lam, om) \<Rightarrow>
               if deg = 0 then Some (0, take N received)
               else find_and_correct_errors lam om deg (take N received)) }"

subsection \<open>File-level decode loop\<close>







subsection \<open>Error positions\<close>

text \<open>
  The positions that the Chien search of \<^verbatim>\<open>find_and_correct_errors\<close> counts as errors: those
  where the locator sum is zero.
\<close>

definition chien_roots :: "byte list \<Rightarrow> nat \<Rightarrow> nat list" where
  "chien_roots lam deg = filter (\<lambda>i. chien_sum lam deg i = Some 0) [0..<N]"

subsection \<open>AX.25 frames\<close>

definition AX25_FLAG :: byte where "AX25_FLAG = 0x7E"
definition AX_25_CONTROL :: byte where "AX_25_CONTROL = 0x03"
definition PID_NoL3 :: byte where "PID_NoL3 = 0xF0"
definition MAX_PAYLOAD :: nat where "MAX_PAYLOAD = 256"

datatype frame_type_t =
  BEACON_FRAME | FRAME_DATA_HEADER | FRAME_DATA_FIRST | FRAME_DATA | FRAME_DATA_END | FRAME_MESSAGE

text \<open>The value of the enumerator, as the cast \<^verbatim>\<open>(uint8_t) type\<close> gives it.\<close>

fun frame_type_code :: "frame_type_t \<Rightarrow> byte" where
  "frame_type_code BEACON_FRAME = 0"
| "frame_type_code FRAME_DATA_HEADER = 1"
| "frame_type_code FRAME_DATA_FIRST = 2"
| "frame_type_code FRAME_DATA = 3"
| "frame_type_code FRAME_DATA_END = 4"
| "frame_type_code FRAME_MESSAGE = 5"

text \<open>
  The call signs are C strings in \<^verbatim>\<open>char[8]\<close> fields: the model holds the characters
  before the terminating NUL.
\<close>

record ax25_config_t =
  source_call :: "byte list"
  dest_call :: "byte list"
  source :: byte
  dest :: byte

text \<open>
  \<^verbatim>\<open>encode_address\<close> writes seven bytes at \<^verbatim>\<open>out\<close>, which the callers point into the
  frame buffer: the model takes the buffer and the offset. The stores convert to
  \<^verbatim>\<open>uint8_t\<close>, so the shifts wrap at 8 bits.
\<close>

definition encode_address :: "byte list \<Rightarrow> byte \<Rightarrow> byte list \<Rightarrow> nat \<Rightarrow> int \<Rightarrow> byte list" where
  "encode_address call ssid out off last_addr =
     (let call_len = length call;
          out' = fold (\<lambda>i b. b[off + i := (if i < call_len then push_bit 1 (call ! i)
                                            else push_bit 1 0x20)])
                   [0..<6] out
      in out'[off + 6 := push_bit 1 ssid OR (if last_addr \<noteq> 0 then 1 else 0)])"

definition crc_bit :: "16 word \<Rightarrow> 16 word" where
  "crc_bit crc = (if crc AND 0x8000 \<noteq> 0 then push_bit 1 crc XOR 0x1021 else push_bit 1 crc)"

definition crc_byte :: "byte \<Rightarrow> 16 word \<Rightarrow> 16 word" where
  "crc_byte b crc = fold (\<lambda>j c. crc_bit c) [0..<8] (crc XOR push_bit 8 (ucast b))"

definition calculate_crc :: "byte list \<Rightarrow> 16 word" where
  "calculate_crc data = fold crc_byte data 0xFFFF XOR 0xFFFF"

definition frame_header :: "frame_type_t \<Rightarrow> 16 word \<Rightarrow> 16 word \<Rightarrow> byte list \<Rightarrow> nat \<Rightarrow> byte list" where
  "frame_header type sequence total_n buffer off =
     buffer[off := frame_type_code type,
            off + 1 := ucast (drop_bit 8 sequence AND 0xFF),
            off + 2 := ucast (sequence AND 0xFF),
            off + 3 := ucast (drop_bit 8 total_n AND 0xFF),
            off + 4 := ucast (total_n AND 0xFF)]"

definition memcpy_at :: "byte list \<Rightarrow> nat \<Rightarrow> byte list \<Rightarrow> nat \<Rightarrow> byte list" where
  "memcpy_at dst off src n = fold (\<lambda>i b. b[off + i := src ! i]) [0..<n] dst"

text \<open>
  \<^verbatim>\<open>frame_gen\<close> writes into the caller's \<^verbatim>\<open>frame_buffer\<close> and returns the number of bytes
  written; the model returns that number and the buffer. The payload is a list, so
  \<^verbatim>\<open>payload_len\<close> is its length and the pointer is not null. The CRC is taken over the
  \<^verbatim>\<open>position - 1\<close> bytes from \<^verbatim>\<open>&frame_buffer[1]\<close>.
\<close>

definition frame_gen :: "ax25_config_t \<Rightarrow> frame_type_t \<Rightarrow> 16 word \<Rightarrow> 16 word \<Rightarrow> byte list
    \<Rightarrow> byte list \<Rightarrow> nat \<times> byte list" where
  "frame_gen config type sequence total_n payload frame_buffer =
     (let payload_len = length payload;
          fb0 = frame_buffer[0 := AX25_FLAG];
          fb1 = encode_address (dest_call config) (dest config) fb0 1 0;
          fb2 = encode_address (source_call config) (source config) fb1 8 1;
          fb3 = fb2[15 := AX_25_CONTROL];
          fb4 = fb3[16 := PID_NoL3];
          (fb5, p5) = (if type \<noteq> FRAME_MESSAGE
                       then (frame_header type sequence total_n fb4 17, 17 + 5)
                       else (fb4, 17));
          (fb6, p6) = (if payload_len > 0
                       then (memcpy_at fb5 p5 payload payload_len, p5 + payload_len)
                       else (fb5, p5));
          fcs = calculate_crc (take (p6 - 1) (drop 1 fb6));
          fb7 = fb6[p6 := ucast (fcs AND 0xFF)];
          fb8 = fb7[p6 + 1 := ucast (drop_bit 8 fcs AND 0xFF)];
          fb9 = fb8[p6 + 2 := AX25_FLAG]
      in (p6 + 3, fb9))"

definition create_beacon_frame :: "ax25_config_t \<Rightarrow> byte list \<Rightarrow> byte list \<Rightarrow> nat \<times> byte list" where
  "create_beacon_frame config message frame_buffer =
     frame_gen config BEACON_FRAME 0 1 message frame_buffer"

text \<open>
  \<^verbatim>\<open>packetization\<close> builds each frame in a fresh, uninitialised \<^verbatim>\<open>frame_buffer[512]\<close>
  (the model's \<open>buf0\<close>) and hands the first \<^verbatim>\<open>frame_length\<close> bytes to the hex writer. The
  model returns these byte strings, in order, and the count that the function returns. The
  \<^verbatim>\<open>int\<close> arguments \<^verbatim>\<open>packet\<close> and \<^verbatim>\<open>total_packets\<close> are converted to \<^verbatim>\<open>uint16_t\<close> at
  the call of \<^verbatim>\<open>frame_gen\<close>.
\<close>

definition packet_frame :: "ax25_config_t \<Rightarrow> byte list \<Rightarrow> nat \<Rightarrow> byte list \<Rightarrow> nat \<Rightarrow> byte list" where
  "packet_frame config data total_packets buf0 packet =
     (let data_length = length data;
          data_offset = packet * MAX_PAYLOAD;
          chunk_size = (if data_offset + MAX_PAYLOAD > data_length
                        then data_length - data_offset else MAX_PAYLOAD);
          frame_type = (if total_packets = 1 then FRAME_DATA_HEADER
                        else if packet = 0 then FRAME_DATA_FIRST
                        else if packet = total_packets - 1 then FRAME_DATA_END
                        else FRAME_DATA);
          (frame_length, frame_buffer) =
             frame_gen config frame_type (word_of_nat packet) (word_of_nat total_packets)
               (take chunk_size (drop data_offset data)) buf0
      in take frame_length frame_buffer)"

definition packetization :: "ax25_config_t \<Rightarrow> byte list \<Rightarrow> byte list \<Rightarrow> byte list list \<times> nat" where
  "packetization config data buf0 =
     (let total_packets = (length data + MAX_PAYLOAD - 1) div MAX_PAYLOAD
      in (map (packet_frame config data total_packets buf0) [0..<total_packets], total_packets))"

text \<open>The link configuration that \<^verbatim>\<open>main\<close> builds: source "N0CALL", destination "CQ".\<close>

definition main_config :: ax25_config_t where
  "main_config = \<lparr>source_call = [0x4E, 0x30, 0x43, 0x41, 0x4C, 0x4C],
                   dest_call = [0x43, 0x51], source = 0, dest = 0\<rparr>"

subsection \<open>The frame layout of the specification\<close>

text \<open>
  The wire format as the specification words it, for comparison with what \<^verbatim>\<open>frame_gen\<close>
  writes. An address field is six call sign characters, padded with spaces and each
  shifted left by one bit, then the byte \<open>(ssid << 1) | last\<close>.
\<close>

definition spec_address :: "byte list \<Rightarrow> byte \<Rightarrow> bool \<Rightarrow> byte list" where
  "spec_address call ssid last_addr =
     map (push_bit 1) (take 6 (call @ replicate 6 0x20))
     @ [push_bit 1 ssid OR (if last_addr then 1 else 0)]"

text \<open>The fragment header: type, then sequence and total, each big-endian in two bytes.\<close>

definition spec_fragment_header :: "frame_type_t \<Rightarrow> 16 word \<Rightarrow> 16 word \<Rightarrow> byte list" where
  "spec_fragment_header type sequence total_n =
     [frame_type_code type,
      ucast (drop_bit 8 sequence), ucast sequence,
      ucast (drop_bit 8 total_n), ucast total_n]"

text \<open>Everything between the opening flag and the frame check sequence.\<close>

definition spec_frame_body :: "ax25_config_t \<Rightarrow> frame_type_t \<Rightarrow> 16 word \<Rightarrow> 16 word \<Rightarrow> byte list
    \<Rightarrow> byte list" where
  "spec_frame_body config type sequence total_n payload =
     spec_address (dest_call config) (dest config) False
     @ spec_address (source_call config) (source config) True
     @ [0x03, 0xF0]
     @ (if type \<noteq> FRAME_MESSAGE then spec_fragment_header type sequence total_n else [])
     @ payload"

text \<open>
  The frame check sequence as the specification names it: a CRC given by its polynomial, the
  initial value of the 16-bit register and the final XOR, taken over the message most
  significant bit first. The message is a stream of bits; each bit is compared with the top
  bit of the register, the register moves up by one bit, and the polynomial is added when
  the two bits differed. This is written without reference to \<^verbatim>\<open>calculate_crc\<close>, which works
  a byte at a time.
\<close>

definition spec_crc_feed :: "16 word \<Rightarrow> 16 word \<Rightarrow> bool \<Rightarrow> 16 word" where
  "spec_crc_feed poly reg b =
     (if bit reg 15 \<noteq> b then push_bit 1 reg XOR poly else push_bit 1 reg)"

definition byte_bits_msb_first :: "byte \<Rightarrow> bool list" where
  "byte_bits_msb_first b = map (bit b) [7, 6, 5, 4, 3, 2, 1, 0]"

definition spec_crc :: "16 word \<Rightarrow> 16 word \<Rightarrow> 16 word \<Rightarrow> byte list \<Rightarrow> 16 word" where
  "spec_crc poly init xorout data =
     fold (\<lambda>b reg. spec_crc_feed poly reg b) (concat (map byte_bits_msb_first data)) init
     XOR xorout"

text \<open>CRC-CCITT: polynomial \<open>0x1021\<close>, initial register \<open>0xFFFF\<close>, final XOR \<open>0xFFFF\<close>.\<close>

definition spec_crc_ccitt :: "byte list \<Rightarrow> 16 word" where
  "spec_crc_ccitt = spec_crc 0x1021 0xFFFF 0xFFFF"

text \<open>
  The whole frame: flag, body, the check sequence of the body with its low byte first, flag.
\<close>

definition spec_ax25_frame :: "ax25_config_t \<Rightarrow> frame_type_t \<Rightarrow> 16 word \<Rightarrow> 16 word \<Rightarrow> byte list
    \<Rightarrow> byte list" where
  "spec_ax25_frame config type sequence total_n payload =
     (let body = spec_frame_body config type sequence total_n payload;
          fcs = spec_crc_ccitt body
      in [0x7E] @ body @ [ucast fcs, ucast (drop_bit 8 fcs)] @ [0x7E])"

subsection \<open>Evaluation order\<close>

text \<open>
  Strict application: the argument is evaluated before the function is applied. It is used
  only to run the loops of the model on concrete inputs one iteration at a time.
\<close>

definition strict :: "('a \<Rightarrow> 'b) \<Rightarrow> 'a \<Rightarrow> 'b" where
  "strict f x = f x"

section \<open>Evaluation rules\<close>

text \<open>Index ranges with numeral bounds unfold to their elements, written as numerals.\<close>

lemma upt_0_numeral: "[0..<numeral n] = 0 # [Suc 0..<numeral n]"
  by (rule upt_conv_Cons) simp

lemma upt_1_numeral:
  "[Suc 0..<numeral n] = (if Suc 0 < numeral n then Suc 0 # [2..<numeral n] else [])"
  using upt_rec [of "Suc 0" "numeral n"] by (simp only: numeral_2_eq_2)

lemmas upt_eval = upt_0_numeral upt_1_numeral

text \<open>Lists indexed and built with numerals.\<close>

lemma list_update_Cons_numeral: "(x # xs)[numeral n := y] = x # xs[numeral n - 1 := y]"
  by (simp add: numeral_eq_Suc)

lemma replicate_numeral_unfold: "replicate (numeral n) x = x # replicate (numeral n - 1) x"
  by (simp add: numeral_eq_Suc)

lemmas list_eval = list_update_Cons_numeral replicate_numeral_unfold upt_eval


text \<open>
  A loop is run one iteration at a time: the state after an iteration is evaluated to a
  value (a list, an option, a pair) before the next iteration starts.
\<close>

lemma fold_strict: "fold f (x # xs) s = strict (fold f xs) (f x s)"
  by (simp add: strict_def)

lemma strict_value:
  "strict f [] = f []"
  "strict f (y # ys) = f (y # ys)"
  "strict g None = g None"
  "strict g (Some v) = g (Some v)"
  "strict h (a, b) = h (a, b)"
  by (simp_all add: strict_def)

lemma fold_done: "fold f [] s = s"
  by simp

lemmas loop_eval = fold_done fold_strict strict_value

section \<open>The Galois field tables\<close>

text \<open>
  Running \<^verbatim>\<open>init_galois_field\<close> gives the following tables: the powers of the element 2
  under the reduction polynomial \<open>0x11D\<close>, repeated from index 255 on, and their logarithms.
\<close>

lemma init_galois_field_tables:
  "init_galois_field =
    ([
      1, 2, 4, 8, 16, 32, 64, 128, 29, 58, 116, 232, 205, 135, 19, 38, 76, 152, 45, 90, 180,
      117, 234, 201, 143, 3, 6, 12, 24, 48, 96, 192, 157, 39, 78, 156, 37, 74, 148, 53, 106,
      212, 181, 119, 238, 193, 159, 35, 70, 140, 5, 10, 20, 40, 80, 160, 93, 186, 105, 210,
      185, 111, 222, 161, 95, 190, 97, 194, 153, 47, 94, 188, 101, 202, 137, 15, 30, 60, 120,
      240, 253, 231, 211, 187, 107, 214, 177, 127, 254, 225, 223, 163, 91, 182, 113, 226, 217,
      175, 67, 134, 17, 34, 68, 136, 13, 26, 52, 104, 208, 189, 103, 206, 129, 31, 62, 124,
      248, 237, 199, 147, 59, 118, 236, 197, 151, 51, 102, 204, 133, 23, 46, 92, 184, 109, 218,
      169, 79, 158, 33, 66, 132, 21, 42, 84, 168, 77, 154, 41, 82, 164, 85, 170, 73, 146, 57,
      114, 228, 213, 183, 115, 230, 209, 191, 99, 198, 145, 63, 126, 252, 229, 215, 179, 123,
      246, 241, 255, 227, 219, 171, 75, 150, 49, 98, 196, 149, 55, 110, 220, 165, 87, 174, 65,
      130, 25, 50, 100, 200, 141, 7, 14, 28, 56, 112, 224, 221, 167, 83, 166, 81, 162, 89, 178,
      121, 242, 249, 239, 195, 155, 43, 86, 172, 69, 138, 9, 18, 36, 72, 144, 61, 122, 244,
      245, 247, 243, 251, 235, 203, 139, 11, 22, 44, 88, 176, 125, 250, 233, 207, 131, 27, 54,
      108, 216, 173, 71, 142, 1, 2, 4, 8, 16, 32, 64, 128, 29, 58, 116, 232, 205, 135, 19, 38,
      76, 152, 45, 90, 180, 117, 234, 201, 143, 3, 6, 12, 24, 48, 96, 192, 157, 39, 78, 156,
      37, 74, 148, 53, 106, 212, 181, 119, 238, 193, 159, 35, 70, 140, 5, 10, 20, 40, 80, 160,
      93, 186, 105, 210, 185, 111, 222, 161, 95, 190, 97, 194, 153, 47, 94, 188, 101, 202, 137,
      15, 30, 60, 120, 240, 253, 231, 211, 187, 107, 214, 177, 127, 254, 225, 223, 163, 91,
      182, 113, 226, 217, 175, 67, 134, 17, 34, 68, 136, 13, 26, 52, 104, 208, 189, 103, 206,
      129, 31, 62, 124, 248, 237, 199, 147, 59, 118, 236, 197, 151, 51, 102, 204, 133, 23, 46,
      92, 184, 109, 218, 169, 79, 158, 33, 66, 132, 21, 42, 84, 168, 77, 154, 41, 82, 164, 85,
      170, 73, 146, 57, 114, 228, 213, 183, 115, 230, 209, 191, 99, 198, 145, 63, 126, 252,
      229, 215, 179, 123, 246, 241, 255, 227, 219, 171, 75, 150, 49, 98, 196, 149, 55, 110,
      220, 165, 87, 174, 65, 130, 25, 50, 100, 200, 141, 7, 14, 28, 56, 112, 224, 221, 167, 83,
      166, 81, 162, 89, 178, 121, 242, 249, 239, 195, 155, 43, 86, 172, 69, 138, 9, 18, 36, 72,
      144, 61, 122, 244, 245, 247, 243, 251, 235, 203, 139, 11, 22, 44, 88, 176, 125, 250, 233,
      207, 131, 27, 54, 108, 216, 173, 71, 142, 1, 2],
     [
      255, 0, 1, 25, 2, 50, 26, 198, 3, 223, 51, 238, 27, 104, 199, 75, 4, 100, 224, 14, 52,
      141, 239, 129, 28, 193, 105, 248, 200, 8, 76, 113, 5, 138, 101, 47, 225, 36, 15, 33, 53,
      147, 142, 218, 240, 18, 130, 69, 29, 181, 194, 125, 106, 39, 249, 185, 201, 154, 9, 120,
      77, 228, 114, 166, 6, 191, 139, 98, 102, 221, 48, 253, 226, 152, 37, 179, 16, 145, 34,
      136, 54, 208, 148, 206, 143, 150, 219, 189, 241, 210, 19, 92, 131, 56, 70, 64, 30, 66,
      182, 163, 195, 72, 126, 110, 107, 58, 40, 84, 250, 133, 186, 61, 202, 94, 155, 159, 10,
      21, 121, 43, 78, 212, 229, 172, 115, 243, 167, 87, 7, 112, 192, 247, 140, 128, 99, 13,
      103, 74, 222, 237, 49, 197, 254, 24, 227, 165, 153, 119, 38, 184, 180, 124, 17, 68, 146,
      217, 35, 32, 137, 46, 55, 63, 209, 91, 149, 188, 207, 205, 144, 135, 151, 178, 220, 252,
      190, 97, 242, 86, 211, 171, 20, 42, 93, 158, 132, 60, 57, 83, 71, 109, 65, 162, 31, 45,
      67, 216, 183, 123, 164, 118, 196, 23, 73, 236, 127, 12, 111, 246, 108, 161, 59, 82, 41,
      157, 85, 170, 251, 96, 134, 177, 187, 204, 62, 90, 203, 89, 95, 176, 156, 169, 160, 81,
      11, 245, 22, 235, 122, 117, 44, 215, 79, 174, 213, 233, 230, 231, 173, 232, 116, 214,
      244, 234, 168, 80, 88, 175])"
  by code_simp

lemma gf_exp_table:
  "gf_exp =
    [
     1, 2, 4, 8, 16, 32, 64, 128, 29, 58, 116, 232, 205, 135, 19, 38, 76, 152, 45, 90, 180,
     117, 234, 201, 143, 3, 6, 12, 24, 48, 96, 192, 157, 39, 78, 156, 37, 74, 148, 53, 106,
     212, 181, 119, 238, 193, 159, 35, 70, 140, 5, 10, 20, 40, 80, 160, 93, 186, 105, 210, 185,
     111, 222, 161, 95, 190, 97, 194, 153, 47, 94, 188, 101, 202, 137, 15, 30, 60, 120, 240,
     253, 231, 211, 187, 107, 214, 177, 127, 254, 225, 223, 163, 91, 182, 113, 226, 217, 175,
     67, 134, 17, 34, 68, 136, 13, 26, 52, 104, 208, 189, 103, 206, 129, 31, 62, 124, 248, 237,
     199, 147, 59, 118, 236, 197, 151, 51, 102, 204, 133, 23, 46, 92, 184, 109, 218, 169, 79,
     158, 33, 66, 132, 21, 42, 84, 168, 77, 154, 41, 82, 164, 85, 170, 73, 146, 57, 114, 228,
     213, 183, 115, 230, 209, 191, 99, 198, 145, 63, 126, 252, 229, 215, 179, 123, 246, 241,
     255, 227, 219, 171, 75, 150, 49, 98, 196, 149, 55, 110, 220, 165, 87, 174, 65, 130, 25,
     50, 100, 200, 141, 7, 14, 28, 56, 112, 224, 221, 167, 83, 166, 81, 162, 89, 178, 121, 242,
     249, 239, 195, 155, 43, 86, 172, 69, 138, 9, 18, 36, 72, 144, 61, 122, 244, 245, 247, 243,
     251, 235, 203, 139, 11, 22, 44, 88, 176, 125, 250, 233, 207, 131, 27, 54, 108, 216, 173,
     71, 142, 1, 2, 4, 8, 16, 32, 64, 128, 29, 58, 116, 232, 205, 135, 19, 38, 76, 152, 45, 90,
     180, 117, 234, 201, 143, 3, 6, 12, 24, 48, 96, 192, 157, 39, 78, 156, 37, 74, 148, 53,
     106, 212, 181, 119, 238, 193, 159, 35, 70, 140, 5, 10, 20, 40, 80, 160, 93, 186, 105, 210,
     185, 111, 222, 161, 95, 190, 97, 194, 153, 47, 94, 188, 101, 202, 137, 15, 30, 60, 120,
     240, 253, 231, 211, 187, 107, 214, 177, 127, 254, 225, 223, 163, 91, 182, 113, 226, 217,
     175, 67, 134, 17, 34, 68, 136, 13, 26, 52, 104, 208, 189, 103, 206, 129, 31, 62, 124, 248,
     237, 199, 147, 59, 118, 236, 197, 151, 51, 102, 204, 133, 23, 46, 92, 184, 109, 218, 169,
     79, 158, 33, 66, 132, 21, 42, 84, 168, 77, 154, 41, 82, 164, 85, 170, 73, 146, 57, 114,
     228, 213, 183, 115, 230, 209, 191, 99, 198, 145, 63, 126, 252, 229, 215, 179, 123, 246,
     241, 255, 227, 219, 171, 75, 150, 49, 98, 196, 149, 55, 110, 220, 165, 87, 174, 65, 130,
     25, 50, 100, 200, 141, 7, 14, 28, 56, 112, 224, 221, 167, 83, 166, 81, 162, 89, 178, 121,
     242, 249, 239, 195, 155, 43, 86, 172, 69, 138, 9, 18, 36, 72, 144, 61, 122, 244, 245, 247,
     243, 251, 235, 203, 139, 11, 22, 44, 88, 176, 125, 250, 233, 207, 131, 27, 54, 108, 216,
     173, 71, 142, 1, 2]"
  by (simp add: gf_exp_def init_galois_field_tables)

lemma gf_log_table:
  "gf_log =
    [
     255, 0, 1, 25, 2, 50, 26, 198, 3, 223, 51, 238, 27, 104, 199, 75, 4, 100, 224, 14, 52,
     141, 239, 129, 28, 193, 105, 248, 200, 8, 76, 113, 5, 138, 101, 47, 225, 36, 15, 33, 53,
     147, 142, 218, 240, 18, 130, 69, 29, 181, 194, 125, 106, 39, 249, 185, 201, 154, 9, 120,
     77, 228, 114, 166, 6, 191, 139, 98, 102, 221, 48, 253, 226, 152, 37, 179, 16, 145, 34,
     136, 54, 208, 148, 206, 143, 150, 219, 189, 241, 210, 19, 92, 131, 56, 70, 64, 30, 66,
     182, 163, 195, 72, 126, 110, 107, 58, 40, 84, 250, 133, 186, 61, 202, 94, 155, 159, 10,
     21, 121, 43, 78, 212, 229, 172, 115, 243, 167, 87, 7, 112, 192, 247, 140, 128, 99, 13,
     103, 74, 222, 237, 49, 197, 254, 24, 227, 165, 153, 119, 38, 184, 180, 124, 17, 68, 146,
     217, 35, 32, 137, 46, 55, 63, 209, 91, 149, 188, 207, 205, 144, 135, 151, 178, 220, 252,
     190, 97, 242, 86, 211, 171, 20, 42, 93, 158, 132, 60, 57, 83, 71, 109, 65, 162, 31, 45,
     67, 216, 183, 123, 164, 118, 196, 23, 73, 236, 127, 12, 111, 246, 108, 161, 59, 82, 41,
     157, 85, 170, 251, 96, 134, 177, 187, 204, 62, 90, 203, 89, 95, 176, 156, 169, 160, 81,
     11, 245, 22, 235, 122, 117, 44, 215, 79, 174, 213, 233, 230, 231, 173, 232, 116, 214, 244,
     234, 168, 80, 88, 175]"
  by (simp add: gf_log_def init_galois_field_tables)

lemma length_gf_exp: "length gf_exp = 512"
  by (simp add: gf_exp_table)

lemma length_gf_log: "length gf_log = 256"
  by (simp add: gf_log_table)

text \<open>The entries one by one, as rewrite rules for evaluating the field operations.\<close>

lemma gf_exp_nth:
  "gf_exp ! 0 = 1" "gf_exp ! Suc 0 = 2" "gf_exp ! 2 = 4" "gf_exp ! 3 = 8" "gf_exp ! 4 = 16"
  "gf_exp ! 5 = 32" "gf_exp ! 6 = 64" "gf_exp ! 7 = 128" "gf_exp ! 8 = 29" "gf_exp ! 9 = 58"
  "gf_exp ! 10 = 116" "gf_exp ! 11 = 232" "gf_exp ! 12 = 205" "gf_exp ! 13 = 135"
  "gf_exp ! 14 = 19" "gf_exp ! 15 = 38" "gf_exp ! 16 = 76" "gf_exp ! 17 = 152" "gf_exp ! 18 = 45"
  "gf_exp ! 19 = 90" "gf_exp ! 20 = 180" "gf_exp ! 21 = 117" "gf_exp ! 22 = 234"
  "gf_exp ! 23 = 201" "gf_exp ! 24 = 143" "gf_exp ! 25 = 3" "gf_exp ! 26 = 6" "gf_exp ! 27 = 12"
  "gf_exp ! 28 = 24" "gf_exp ! 29 = 48" "gf_exp ! 30 = 96" "gf_exp ! 31 = 192"
  "gf_exp ! 32 = 157" "gf_exp ! 33 = 39" "gf_exp ! 34 = 78" "gf_exp ! 35 = 156"
  "gf_exp ! 36 = 37" "gf_exp ! 37 = 74" "gf_exp ! 38 = 148" "gf_exp ! 39 = 53"
  "gf_exp ! 40 = 106" "gf_exp ! 41 = 212" "gf_exp ! 42 = 181" "gf_exp ! 43 = 119"
  "gf_exp ! 44 = 238" "gf_exp ! 45 = 193" "gf_exp ! 46 = 159" "gf_exp ! 47 = 35"
  "gf_exp ! 48 = 70" "gf_exp ! 49 = 140" "gf_exp ! 50 = 5" "gf_exp ! 51 = 10" "gf_exp ! 52 = 20"
  "gf_exp ! 53 = 40" "gf_exp ! 54 = 80" "gf_exp ! 55 = 160" "gf_exp ! 56 = 93"
  "gf_exp ! 57 = 186" "gf_exp ! 58 = 105" "gf_exp ! 59 = 210" "gf_exp ! 60 = 185"
  "gf_exp ! 61 = 111" "gf_exp ! 62 = 222" "gf_exp ! 63 = 161" "gf_exp ! 64 = 95"
  "gf_exp ! 65 = 190" "gf_exp ! 66 = 97" "gf_exp ! 67 = 194" "gf_exp ! 68 = 153"
  "gf_exp ! 69 = 47" "gf_exp ! 70 = 94" "gf_exp ! 71 = 188" "gf_exp ! 72 = 101"
  "gf_exp ! 73 = 202" "gf_exp ! 74 = 137" "gf_exp ! 75 = 15" "gf_exp ! 76 = 30"
  "gf_exp ! 77 = 60" "gf_exp ! 78 = 120" "gf_exp ! 79 = 240" "gf_exp ! 80 = 253"
  "gf_exp ! 81 = 231" "gf_exp ! 82 = 211" "gf_exp ! 83 = 187" "gf_exp ! 84 = 107"
  "gf_exp ! 85 = 214" "gf_exp ! 86 = 177" "gf_exp ! 87 = 127" "gf_exp ! 88 = 254"
  "gf_exp ! 89 = 225" "gf_exp ! 90 = 223" "gf_exp ! 91 = 163" "gf_exp ! 92 = 91"
  "gf_exp ! 93 = 182" "gf_exp ! 94 = 113" "gf_exp ! 95 = 226" "gf_exp ! 96 = 217"
  "gf_exp ! 97 = 175" "gf_exp ! 98 = 67" "gf_exp ! 99 = 134" "gf_exp ! 100 = 17"
  "gf_exp ! 101 = 34" "gf_exp ! 102 = 68" "gf_exp ! 103 = 136" "gf_exp ! 104 = 13"
  "gf_exp ! 105 = 26" "gf_exp ! 106 = 52" "gf_exp ! 107 = 104" "gf_exp ! 108 = 208"
  "gf_exp ! 109 = 189" "gf_exp ! 110 = 103" "gf_exp ! 111 = 206" "gf_exp ! 112 = 129"
  "gf_exp ! 113 = 31" "gf_exp ! 114 = 62" "gf_exp ! 115 = 124" "gf_exp ! 116 = 248"
  "gf_exp ! 117 = 237" "gf_exp ! 118 = 199" "gf_exp ! 119 = 147" "gf_exp ! 120 = 59"
  "gf_exp ! 121 = 118" "gf_exp ! 122 = 236" "gf_exp ! 123 = 197" "gf_exp ! 124 = 151"
  "gf_exp ! 125 = 51" "gf_exp ! 126 = 102" "gf_exp ! 127 = 204" "gf_exp ! 128 = 133"
  "gf_exp ! 129 = 23" "gf_exp ! 130 = 46" "gf_exp ! 131 = 92" "gf_exp ! 132 = 184"
  "gf_exp ! 133 = 109" "gf_exp ! 134 = 218" "gf_exp ! 135 = 169" "gf_exp ! 136 = 79"
  "gf_exp ! 137 = 158" "gf_exp ! 138 = 33" "gf_exp ! 139 = 66" "gf_exp ! 140 = 132"
  "gf_exp ! 141 = 21" "gf_exp ! 142 = 42" "gf_exp ! 143 = 84" "gf_exp ! 144 = 168"
  "gf_exp ! 145 = 77" "gf_exp ! 146 = 154" "gf_exp ! 147 = 41" "gf_exp ! 148 = 82"
  "gf_exp ! 149 = 164" "gf_exp ! 150 = 85" "gf_exp ! 151 = 170" "gf_exp ! 152 = 73"
  "gf_exp ! 153 = 146" "gf_exp ! 154 = 57" "gf_exp ! 155 = 114" "gf_exp ! 156 = 228"
  "gf_exp ! 157 = 213" "gf_exp ! 158 = 183" "gf_exp ! 159 = 115" "gf_exp ! 160 = 230"
  "gf_exp ! 161 = 209" "gf_exp ! 162 = 191" "gf_exp ! 163 = 99" "gf_exp ! 164 = 198"
  "gf_exp ! 165 = 145" "gf_exp ! 166 = 63" "gf_exp ! 167 = 126" "gf_exp ! 168 = 252"
  "gf_exp ! 169 = 229" "gf_exp ! 170 = 215" "gf_exp ! 171 = 179" "gf_exp ! 172 = 123"
  "gf_exp ! 173 = 246" "gf_exp ! 174 = 241" "gf_exp ! 175 = 255" "gf_exp ! 176 = 227"
  "gf_exp ! 177 = 219" "gf_exp ! 178 = 171" "gf_exp ! 179 = 75" "gf_exp ! 180 = 150"
  "gf_exp ! 181 = 49" "gf_exp ! 182 = 98" "gf_exp ! 183 = 196" "gf_exp ! 184 = 149"
  "gf_exp ! 185 = 55" "gf_exp ! 186 = 110" "gf_exp ! 187 = 220" "gf_exp ! 188 = 165"
  "gf_exp ! 189 = 87" "gf_exp ! 190 = 174" "gf_exp ! 191 = 65" "gf_exp ! 192 = 130"
  "gf_exp ! 193 = 25" "gf_exp ! 194 = 50" "gf_exp ! 195 = 100" "gf_exp ! 196 = 200"
  "gf_exp ! 197 = 141" "gf_exp ! 198 = 7" "gf_exp ! 199 = 14" "gf_exp ! 200 = 28"
  "gf_exp ! 201 = 56" "gf_exp ! 202 = 112" "gf_exp ! 203 = 224" "gf_exp ! 204 = 221"
  "gf_exp ! 205 = 167" "gf_exp ! 206 = 83" "gf_exp ! 207 = 166" "gf_exp ! 208 = 81"
  "gf_exp ! 209 = 162" "gf_exp ! 210 = 89" "gf_exp ! 211 = 178" "gf_exp ! 212 = 121"
  "gf_exp ! 213 = 242" "gf_exp ! 214 = 249" "gf_exp ! 215 = 239" "gf_exp ! 216 = 195"
  "gf_exp ! 217 = 155" "gf_exp ! 218 = 43" "gf_exp ! 219 = 86" "gf_exp ! 220 = 172"
  "gf_exp ! 221 = 69" "gf_exp ! 222 = 138" "gf_exp ! 223 = 9" "gf_exp ! 224 = 18"
  "gf_exp ! 225 = 36" "gf_exp ! 226 = 72" "gf_exp ! 227 = 144" "gf_exp ! 228 = 61"
  "gf_exp ! 229 = 122" "gf_exp ! 230 = 244" "gf_exp ! 231 = 245" "gf_exp ! 232 = 247"
  "gf_exp ! 233 = 243" "gf_exp ! 234 = 251" "gf_exp ! 235 = 235" "gf_exp ! 236 = 203"
  "gf_exp ! 237 = 139" "gf_exp ! 238 = 11" "gf_exp ! 239 = 22" "gf_exp ! 240 = 44"
  "gf_exp ! 241 = 88" "gf_exp ! 242 = 176" "gf_exp ! 243 = 125" "gf_exp ! 244 = 250"
  "gf_exp ! 245 = 233" "gf_exp ! 246 = 207" "gf_exp ! 247 = 131" "gf_exp ! 248 = 27"
  "gf_exp ! 249 = 54" "gf_exp ! 250 = 108" "gf_exp ! 251 = 216" "gf_exp ! 252 = 173"
  "gf_exp ! 253 = 71" "gf_exp ! 254 = 142" "gf_exp ! 255 = 1" "gf_exp ! 256 = 2"
  "gf_exp ! 257 = 4" "gf_exp ! 258 = 8" "gf_exp ! 259 = 16" "gf_exp ! 260 = 32"
  "gf_exp ! 261 = 64" "gf_exp ! 262 = 128" "gf_exp ! 263 = 29" "gf_exp ! 264 = 58"
  "gf_exp ! 265 = 116" "gf_exp ! 266 = 232" "gf_exp ! 267 = 205" "gf_exp ! 268 = 135"
  "gf_exp ! 269 = 19" "gf_exp ! 270 = 38" "gf_exp ! 271 = 76" "gf_exp ! 272 = 152"
  "gf_exp ! 273 = 45" "gf_exp ! 274 = 90" "gf_exp ! 275 = 180" "gf_exp ! 276 = 117"
  "gf_exp ! 277 = 234" "gf_exp ! 278 = 201" "gf_exp ! 279 = 143" "gf_exp ! 280 = 3"
  "gf_exp ! 281 = 6" "gf_exp ! 282 = 12" "gf_exp ! 283 = 24" "gf_exp ! 284 = 48"
  "gf_exp ! 285 = 96" "gf_exp ! 286 = 192" "gf_exp ! 287 = 157" "gf_exp ! 288 = 39"
  "gf_exp ! 289 = 78" "gf_exp ! 290 = 156" "gf_exp ! 291 = 37" "gf_exp ! 292 = 74"
  "gf_exp ! 293 = 148" "gf_exp ! 294 = 53" "gf_exp ! 295 = 106" "gf_exp ! 296 = 212"
  "gf_exp ! 297 = 181" "gf_exp ! 298 = 119" "gf_exp ! 299 = 238" "gf_exp ! 300 = 193"
  "gf_exp ! 301 = 159" "gf_exp ! 302 = 35" "gf_exp ! 303 = 70" "gf_exp ! 304 = 140"
  "gf_exp ! 305 = 5" "gf_exp ! 306 = 10" "gf_exp ! 307 = 20" "gf_exp ! 308 = 40"
  "gf_exp ! 309 = 80" "gf_exp ! 310 = 160" "gf_exp ! 311 = 93" "gf_exp ! 312 = 186"
  "gf_exp ! 313 = 105" "gf_exp ! 314 = 210" "gf_exp ! 315 = 185" "gf_exp ! 316 = 111"
  "gf_exp ! 317 = 222" "gf_exp ! 318 = 161" "gf_exp ! 319 = 95" "gf_exp ! 320 = 190"
  "gf_exp ! 321 = 97" "gf_exp ! 322 = 194" "gf_exp ! 323 = 153" "gf_exp ! 324 = 47"
  "gf_exp ! 325 = 94" "gf_exp ! 326 = 188" "gf_exp ! 327 = 101" "gf_exp ! 328 = 202"
  "gf_exp ! 329 = 137" "gf_exp ! 330 = 15" "gf_exp ! 331 = 30" "gf_exp ! 332 = 60"
  "gf_exp ! 333 = 120" "gf_exp ! 334 = 240" "gf_exp ! 335 = 253" "gf_exp ! 336 = 231"
  "gf_exp ! 337 = 211" "gf_exp ! 338 = 187" "gf_exp ! 339 = 107" "gf_exp ! 340 = 214"
  "gf_exp ! 341 = 177" "gf_exp ! 342 = 127" "gf_exp ! 343 = 254" "gf_exp ! 344 = 225"
  "gf_exp ! 345 = 223" "gf_exp ! 346 = 163" "gf_exp ! 347 = 91" "gf_exp ! 348 = 182"
  "gf_exp ! 349 = 113" "gf_exp ! 350 = 226" "gf_exp ! 351 = 217" "gf_exp ! 352 = 175"
  "gf_exp ! 353 = 67" "gf_exp ! 354 = 134" "gf_exp ! 355 = 17" "gf_exp ! 356 = 34"
  "gf_exp ! 357 = 68" "gf_exp ! 358 = 136" "gf_exp ! 359 = 13" "gf_exp ! 360 = 26"
  "gf_exp ! 361 = 52" "gf_exp ! 362 = 104" "gf_exp ! 363 = 208" "gf_exp ! 364 = 189"
  "gf_exp ! 365 = 103" "gf_exp ! 366 = 206" "gf_exp ! 367 = 129" "gf_exp ! 368 = 31"
  "gf_exp ! 369 = 62" "gf_exp ! 370 = 124" "gf_exp ! 371 = 248" "gf_exp ! 372 = 237"
  "gf_exp ! 373 = 199" "gf_exp ! 374 = 147" "gf_exp ! 375 = 59" "gf_exp ! 376 = 118"
  "gf_exp ! 377 = 236" "gf_exp ! 378 = 197" "gf_exp ! 379 = 151" "gf_exp ! 380 = 51"
  "gf_exp ! 381 = 102" "gf_exp ! 382 = 204" "gf_exp ! 383 = 133" "gf_exp ! 384 = 23"
  "gf_exp ! 385 = 46" "gf_exp ! 386 = 92" "gf_exp ! 387 = 184" "gf_exp ! 388 = 109"
  "gf_exp ! 389 = 218" "gf_exp ! 390 = 169" "gf_exp ! 391 = 79" "gf_exp ! 392 = 158"
  "gf_exp ! 393 = 33" "gf_exp ! 394 = 66" "gf_exp ! 395 = 132" "gf_exp ! 396 = 21"
  "gf_exp ! 397 = 42" "gf_exp ! 398 = 84" "gf_exp ! 399 = 168" "gf_exp ! 400 = 77"
  "gf_exp ! 401 = 154" "gf_exp ! 402 = 41" "gf_exp ! 403 = 82" "gf_exp ! 404 = 164"
  "gf_exp ! 405 = 85" "gf_exp ! 406 = 170" "gf_exp ! 407 = 73" "gf_exp ! 408 = 146"
  "gf_exp ! 409 = 57" "gf_exp ! 410 = 114" "gf_exp ! 411 = 228" "gf_exp ! 412 = 213"
  "gf_exp ! 413 = 183" "gf_exp ! 414 = 115" "gf_exp ! 415 = 230" "gf_exp ! 416 = 209"
  "gf_exp ! 417 = 191" "gf_exp ! 418 = 99" "gf_exp ! 419 = 198" "gf_exp ! 420 = 145"
  "gf_exp ! 421 = 63" "gf_exp ! 422 = 126" "gf_exp ! 423 = 252" "gf_exp ! 424 = 229"
  "gf_exp ! 425 = 215" "gf_exp ! 426 = 179" "gf_exp ! 427 = 123" "gf_exp ! 428 = 246"
  "gf_exp ! 429 = 241" "gf_exp ! 430 = 255" "gf_exp ! 431 = 227" "gf_exp ! 432 = 219"
  "gf_exp ! 433 = 171" "gf_exp ! 434 = 75" "gf_exp ! 435 = 150" "gf_exp ! 436 = 49"
  "gf_exp ! 437 = 98" "gf_exp ! 438 = 196" "gf_exp ! 439 = 149" "gf_exp ! 440 = 55"
  "gf_exp ! 441 = 110" "gf_exp ! 442 = 220" "gf_exp ! 443 = 165" "gf_exp ! 444 = 87"
  "gf_exp ! 445 = 174" "gf_exp ! 446 = 65" "gf_exp ! 447 = 130" "gf_exp ! 448 = 25"
  "gf_exp ! 449 = 50" "gf_exp ! 450 = 100" "gf_exp ! 451 = 200" "gf_exp ! 452 = 141"
  "gf_exp ! 453 = 7" "gf_exp ! 454 = 14" "gf_exp ! 455 = 28" "gf_exp ! 456 = 56"
  "gf_exp ! 457 = 112" "gf_exp ! 458 = 224" "gf_exp ! 459 = 221" "gf_exp ! 460 = 167"
  "gf_exp ! 461 = 83" "gf_exp ! 462 = 166" "gf_exp ! 463 = 81" "gf_exp ! 464 = 162"
  "gf_exp ! 465 = 89" "gf_exp ! 466 = 178" "gf_exp ! 467 = 121" "gf_exp ! 468 = 242"
  "gf_exp ! 469 = 249" "gf_exp ! 470 = 239" "gf_exp ! 471 = 195" "gf_exp ! 472 = 155"
  "gf_exp ! 473 = 43" "gf_exp ! 474 = 86" "gf_exp ! 475 = 172" "gf_exp ! 476 = 69"
  "gf_exp ! 477 = 138" "gf_exp ! 478 = 9" "gf_exp ! 479 = 18" "gf_exp ! 480 = 36"
  "gf_exp ! 481 = 72" "gf_exp ! 482 = 144" "gf_exp ! 483 = 61" "gf_exp ! 484 = 122"
  "gf_exp ! 485 = 244" "gf_exp ! 486 = 245" "gf_exp ! 487 = 247" "gf_exp ! 488 = 243"
  "gf_exp ! 489 = 251" "gf_exp ! 490 = 235" "gf_exp ! 491 = 203" "gf_exp ! 492 = 139"
  "gf_exp ! 493 = 11" "gf_exp ! 494 = 22" "gf_exp ! 495 = 44" "gf_exp ! 496 = 88"
  "gf_exp ! 497 = 176" "gf_exp ! 498 = 125" "gf_exp ! 499 = 250" "gf_exp ! 500 = 233"
  "gf_exp ! 501 = 207" "gf_exp ! 502 = 131" "gf_exp ! 503 = 27" "gf_exp ! 504 = 54"
  "gf_exp ! 505 = 108" "gf_exp ! 506 = 216" "gf_exp ! 507 = 173" "gf_exp ! 508 = 71"
  "gf_exp ! 509 = 142" "gf_exp ! 510 = 1" "gf_exp ! 511 = 2"
  by (simp_all add: gf_exp_table)

lemma gf_log_nth:
  "gf_log ! 0 = 255" "gf_log ! Suc 0 = 0" "gf_log ! 2 = 1" "gf_log ! 3 = 25" "gf_log ! 4 = 2"
  "gf_log ! 5 = 50" "gf_log ! 6 = 26" "gf_log ! 7 = 198" "gf_log ! 8 = 3" "gf_log ! 9 = 223"
  "gf_log ! 10 = 51" "gf_log ! 11 = 238" "gf_log ! 12 = 27" "gf_log ! 13 = 104"
  "gf_log ! 14 = 199" "gf_log ! 15 = 75" "gf_log ! 16 = 4" "gf_log ! 17 = 100"
  "gf_log ! 18 = 224" "gf_log ! 19 = 14" "gf_log ! 20 = 52" "gf_log ! 21 = 141"
  "gf_log ! 22 = 239" "gf_log ! 23 = 129" "gf_log ! 24 = 28" "gf_log ! 25 = 193"
  "gf_log ! 26 = 105" "gf_log ! 27 = 248" "gf_log ! 28 = 200" "gf_log ! 29 = 8"
  "gf_log ! 30 = 76" "gf_log ! 31 = 113" "gf_log ! 32 = 5" "gf_log ! 33 = 138"
  "gf_log ! 34 = 101" "gf_log ! 35 = 47" "gf_log ! 36 = 225" "gf_log ! 37 = 36"
  "gf_log ! 38 = 15" "gf_log ! 39 = 33" "gf_log ! 40 = 53" "gf_log ! 41 = 147"
  "gf_log ! 42 = 142" "gf_log ! 43 = 218" "gf_log ! 44 = 240" "gf_log ! 45 = 18"
  "gf_log ! 46 = 130" "gf_log ! 47 = 69" "gf_log ! 48 = 29" "gf_log ! 49 = 181"
  "gf_log ! 50 = 194" "gf_log ! 51 = 125" "gf_log ! 52 = 106" "gf_log ! 53 = 39"
  "gf_log ! 54 = 249" "gf_log ! 55 = 185" "gf_log ! 56 = 201" "gf_log ! 57 = 154"
  "gf_log ! 58 = 9" "gf_log ! 59 = 120" "gf_log ! 60 = 77" "gf_log ! 61 = 228"
  "gf_log ! 62 = 114" "gf_log ! 63 = 166" "gf_log ! 64 = 6" "gf_log ! 65 = 191"
  "gf_log ! 66 = 139" "gf_log ! 67 = 98" "gf_log ! 68 = 102" "gf_log ! 69 = 221"
  "gf_log ! 70 = 48" "gf_log ! 71 = 253" "gf_log ! 72 = 226" "gf_log ! 73 = 152"
  "gf_log ! 74 = 37" "gf_log ! 75 = 179" "gf_log ! 76 = 16" "gf_log ! 77 = 145"
  "gf_log ! 78 = 34" "gf_log ! 79 = 136" "gf_log ! 80 = 54" "gf_log ! 81 = 208"
  "gf_log ! 82 = 148" "gf_log ! 83 = 206" "gf_log ! 84 = 143" "gf_log ! 85 = 150"
  "gf_log ! 86 = 219" "gf_log ! 87 = 189" "gf_log ! 88 = 241" "gf_log ! 89 = 210"
  "gf_log ! 90 = 19" "gf_log ! 91 = 92" "gf_log ! 92 = 131" "gf_log ! 93 = 56" "gf_log ! 94 = 70"
  "gf_log ! 95 = 64" "gf_log ! 96 = 30" "gf_log ! 97 = 66" "gf_log ! 98 = 182"
  "gf_log ! 99 = 163" "gf_log ! 100 = 195" "gf_log ! 101 = 72" "gf_log ! 102 = 126"
  "gf_log ! 103 = 110" "gf_log ! 104 = 107" "gf_log ! 105 = 58" "gf_log ! 106 = 40"
  "gf_log ! 107 = 84" "gf_log ! 108 = 250" "gf_log ! 109 = 133" "gf_log ! 110 = 186"
  "gf_log ! 111 = 61" "gf_log ! 112 = 202" "gf_log ! 113 = 94" "gf_log ! 114 = 155"
  "gf_log ! 115 = 159" "gf_log ! 116 = 10" "gf_log ! 117 = 21" "gf_log ! 118 = 121"
  "gf_log ! 119 = 43" "gf_log ! 120 = 78" "gf_log ! 121 = 212" "gf_log ! 122 = 229"
  "gf_log ! 123 = 172" "gf_log ! 124 = 115" "gf_log ! 125 = 243" "gf_log ! 126 = 167"
  "gf_log ! 127 = 87" "gf_log ! 128 = 7" "gf_log ! 129 = 112" "gf_log ! 130 = 192"
  "gf_log ! 131 = 247" "gf_log ! 132 = 140" "gf_log ! 133 = 128" "gf_log ! 134 = 99"
  "gf_log ! 135 = 13" "gf_log ! 136 = 103" "gf_log ! 137 = 74" "gf_log ! 138 = 222"
  "gf_log ! 139 = 237" "gf_log ! 140 = 49" "gf_log ! 141 = 197" "gf_log ! 142 = 254"
  "gf_log ! 143 = 24" "gf_log ! 144 = 227" "gf_log ! 145 = 165" "gf_log ! 146 = 153"
  "gf_log ! 147 = 119" "gf_log ! 148 = 38" "gf_log ! 149 = 184" "gf_log ! 150 = 180"
  "gf_log ! 151 = 124" "gf_log ! 152 = 17" "gf_log ! 153 = 68" "gf_log ! 154 = 146"
  "gf_log ! 155 = 217" "gf_log ! 156 = 35" "gf_log ! 157 = 32" "gf_log ! 158 = 137"
  "gf_log ! 159 = 46" "gf_log ! 160 = 55" "gf_log ! 161 = 63" "gf_log ! 162 = 209"
  "gf_log ! 163 = 91" "gf_log ! 164 = 149" "gf_log ! 165 = 188" "gf_log ! 166 = 207"
  "gf_log ! 167 = 205" "gf_log ! 168 = 144" "gf_log ! 169 = 135" "gf_log ! 170 = 151"
  "gf_log ! 171 = 178" "gf_log ! 172 = 220" "gf_log ! 173 = 252" "gf_log ! 174 = 190"
  "gf_log ! 175 = 97" "gf_log ! 176 = 242" "gf_log ! 177 = 86" "gf_log ! 178 = 211"
  "gf_log ! 179 = 171" "gf_log ! 180 = 20" "gf_log ! 181 = 42" "gf_log ! 182 = 93"
  "gf_log ! 183 = 158" "gf_log ! 184 = 132" "gf_log ! 185 = 60" "gf_log ! 186 = 57"
  "gf_log ! 187 = 83" "gf_log ! 188 = 71" "gf_log ! 189 = 109" "gf_log ! 190 = 65"
  "gf_log ! 191 = 162" "gf_log ! 192 = 31" "gf_log ! 193 = 45" "gf_log ! 194 = 67"
  "gf_log ! 195 = 216" "gf_log ! 196 = 183" "gf_log ! 197 = 123" "gf_log ! 198 = 164"
  "gf_log ! 199 = 118" "gf_log ! 200 = 196" "gf_log ! 201 = 23" "gf_log ! 202 = 73"
  "gf_log ! 203 = 236" "gf_log ! 204 = 127" "gf_log ! 205 = 12" "gf_log ! 206 = 111"
  "gf_log ! 207 = 246" "gf_log ! 208 = 108" "gf_log ! 209 = 161" "gf_log ! 210 = 59"
  "gf_log ! 211 = 82" "gf_log ! 212 = 41" "gf_log ! 213 = 157" "gf_log ! 214 = 85"
  "gf_log ! 215 = 170" "gf_log ! 216 = 251" "gf_log ! 217 = 96" "gf_log ! 218 = 134"
  "gf_log ! 219 = 177" "gf_log ! 220 = 187" "gf_log ! 221 = 204" "gf_log ! 222 = 62"
  "gf_log ! 223 = 90" "gf_log ! 224 = 203" "gf_log ! 225 = 89" "gf_log ! 226 = 95"
  "gf_log ! 227 = 176" "gf_log ! 228 = 156" "gf_log ! 229 = 169" "gf_log ! 230 = 160"
  "gf_log ! 231 = 81" "gf_log ! 232 = 11" "gf_log ! 233 = 245" "gf_log ! 234 = 22"
  "gf_log ! 235 = 235" "gf_log ! 236 = 122" "gf_log ! 237 = 117" "gf_log ! 238 = 44"
  "gf_log ! 239 = 215" "gf_log ! 240 = 79" "gf_log ! 241 = 174" "gf_log ! 242 = 213"
  "gf_log ! 243 = 233" "gf_log ! 244 = 230" "gf_log ! 245 = 231" "gf_log ! 246 = 173"
  "gf_log ! 247 = 232" "gf_log ! 248 = 116" "gf_log ! 249 = 214" "gf_log ! 250 = 244"
  "gf_log ! 251 = 234" "gf_log ! 252 = 168" "gf_log ! 253 = 80" "gf_log ! 254 = 88"
  "gf_log ! 255 = 175"
  by (simp_all add: gf_log_table)

text \<open>
  Sums of small logarithms reach the tables as \<open>Suc (Suc 0)\<close> and
  \<open>Suc (Suc (Suc 0))\<close>.
\<close>

lemma gf_exp_nth_Suc_Suc: "gf_exp ! Suc (Suc 0) = 4"
  using gf_exp_nth(3) by (simp add: numeral_2_eq_2)

lemma gf_log_nth_Suc_Suc: "gf_log ! Suc (Suc 0) = 1"
  using gf_log_nth(3) by (simp add: numeral_2_eq_2)

lemma gf_exp_nth_Suc_Suc_Suc: "gf_exp ! Suc (Suc (Suc 0)) = 8"
  using gf_exp_nth(4) by (simp add: numeral_3_eq_3)

lemma gf_log_nth_Suc_Suc_Suc: "gf_log ! Suc (Suc (Suc 0)) = 25"
  using gf_log_nth(4) by (simp add: numeral_3_eq_3)

lemmas gf_eval = gf_mult_def gf_div_def gf_pow_def gf_exp_at_def c_mod_def gf_exp_nth gf_log_nth
  gf_exp_nth_Suc_Suc gf_log_nth_Suc_Suc gf_exp_nth_Suc_Suc_Suc gf_log_nth_Suc_Suc_Suc

lemma exp_log_all: "list_all (\<lambda>n. gf_exp ! unat (gf_log ! n) = word_of_nat n) [Suc 0..<256]"
  by (simp add: upt_eval gf_exp_nth gf_log_nth)

lemma log_exp_all: "list_all (\<lambda>i. unat (gf_log ! unat (gf_exp ! i)) = i) [0..<255]"
  by (simp add: upt_eval gf_exp_nth gf_log_nth)

lemma exp_wrap_all: "list_all (\<lambda>i. gf_exp ! (i + 255) = gf_exp ! i) [0..<255]"
  by (simp add: upt_eval gf_exp_nth)

lemma gf_exp_log: "x \<noteq> 0 \<Longrightarrow> gf_exp ! unat (gf_log ! unat x) = x" for x :: byte
proof -
  assume nz: "x \<noteq> 0"
  have lt: "unat x < 256"
    using unsigned_less [of x, where ?'a = nat] by simp
  have pos: "Suc 0 \<le> unat x"
    using nz by (simp add: Suc_le_eq unat_gt_0)
  have "unat x \<in> set [Suc 0..<256]"
    using lt pos by (simp only: set_upt atLeastLessThan_iff)
  with exp_log_all have "gf_exp ! unat (gf_log ! unat x) = word_of_nat (unat x)"
    unfolding list_all_iff by blast
  then show ?thesis by simp
qed

lemma gf_log_exp: "i < 255 \<Longrightarrow> unat (gf_log ! unat (gf_exp ! i)) = i"
proof -
  assume "i < 255"
  then have "i \<in> set [0..<255]"
    by (simp only: set_upt atLeastLessThan_iff le0 simp_thms)
  with log_exp_all show ?thesis
    unfolding list_all_iff by blast
qed

lemma gf_exp_wrap: "i < 255 \<Longrightarrow> gf_exp ! (i + 255) = gf_exp ! i"
proof -
  assume "i < 255"
  then have "i \<in> set [0..<255]"
    by (simp only: set_upt atLeastLessThan_iff le0 simp_thms)
  with exp_wrap_all show ?thesis
    unfolding list_all_iff by blast
qed

text \<open>
  Claim C7. After \<^verbatim>\<open>init_galois_field\<close> the exponential table has 512 entries and the
  logarithm table 256; \<open>gf_exp[gf_log[x]] = x\<close> for every byte \<open>x\<close> from 1 to 255;
  \<open>gf_log[gf_exp[i]] = i\<close> and \<open>gf_exp[i + 255] = gf_exp[i]\<close> for every \<open>i\<close> below 255;
  and \<open>gf_log[0] = 255\<close>.
\<close>

theorem gf_tables_inverse:
  "length gf_exp = 512 \<and> length gf_log = 256 \<and>
   (\<forall>x::byte. x \<noteq> 0 \<longrightarrow> gf_exp ! unat (gf_log ! unat x) = x) \<and>
   (\<forall>i<255. unat (gf_log ! unat (gf_exp ! i)) = i) \<and>
   (\<forall>i<255. gf_exp ! (i + 255) = gf_exp ! i) \<and>
   gf_log ! 0 = 255"
  using gf_exp_log gf_log_exp gf_exp_wrap
  by (simp add: length_gf_exp length_gf_log gf_log_nth)

theorem gf_tables_inverse_witness:
  "(3::byte) \<noteq> 0 \<and> gf_exp ! unat (gf_log ! unat (3::byte)) = 3 \<and>
   (5::nat) < 255 \<and> unat (gf_log ! unat (gf_exp ! 5)) = 5 \<and> gf_exp ! (5 + 255) = gf_exp ! 5"
proof -
  have a: "(3::byte) \<noteq> 0" by simp
  have b: "(5::nat) < 255" by simp
  from gf_tables_inverse a have "gf_exp ! unat (gf_log ! unat (3::byte)) = 3" by blast
  moreover from gf_tables_inverse b have "unat (gf_log ! unat (gf_exp ! 5)) = 5" by blast
  moreover from gf_tables_inverse b have "gf_exp ! (5 + 255) = gf_exp ! 5" by blast
  ultimately show ?thesis using a b by blast
qed

section \<open>The frame check sequence\<close>

lemmas crc_eval = calculate_crc_def crc_byte_def crc_bit_def

text \<open>
  Claim C5, as the code has it. \<^verbatim>\<open>calculate_crc\<close> ends with \<^verbatim>\<open>crc ^ 0xFFFF\<close>, so on the
  nine bytes of the string "123456789" it returns \<open>0xD64E\<close>, the complement of the
  register value \<open>0x29B1\<close>.
\<close>

theorem calculate_crc_check_string:
  "calculate_crc [0x31, 0x32, 0x33, 0x34, 0x35, 0x36, 0x37, 0x38, 0x39] = 0xD64E \<and>
   (0xD64E :: 16 word) = 0x29B1 XOR 0xFFFF"
  by (simp add: crc_eval upt_eval)

text \<open>The value \<open>0x29B1\<close> of claim C5 is not what \<^verbatim>\<open>calculate_crc\<close> returns.\<close>

theorem calculate_crc_check_string_not_29B1:
  "calculate_crc [0x31, 0x32, 0x33, 0x34, 0x35, 0x36, 0x37, 0x38, 0x39] \<noteq> 0x29B1"
  by (simp add: crc_eval upt_eval)

subsection \<open>The code's CRC and the CRC of the specification\<close>

text \<open>
  One step of the code's bit loop on a register that holds pending message bits \<open>y\<close> added
  to the proper register value \<open>c\<close>: the top bit of \<open>y\<close> is fed, the rest moves up.
\<close>

lemma top_bit_mask: "(w AND 0x8000 \<noteq> 0) = bit w 15" for w :: "16 word"
proof -
  have "(0x8000 :: 16 word) = 2 ^ 15" by simp
  then show ?thesis
    by (simp only: and_exp_eq_0_iff_not_bit not_not)
qed

lemma crc_bit_xor:
  "crc_bit (c XOR y) = spec_crc_feed 0x1021 c (bit y 15) XOR push_bit 1 y"
proof -
  have t: "((c XOR y) AND 0x8000 \<noteq> 0) = (bit c 15 \<noteq> bit y 15)"
    by (simp only: top_bit_mask bit_xor_iff)
  define pc py where "pc = push_bit 1 c" and "py = push_bit 1 y"
  have "push_bit 1 (c XOR y) = pc XOR py"
    by (simp only: pc_def py_def push_bit_xor)
  then have "crc_bit (c XOR y) = (if bit c 15 \<noteq> bit y 15 then (pc XOR py) XOR 0x1021 else pc XOR py)"
    by (simp only: crc_bit_def t)
  also have "\<dots> = (if bit c 15 \<noteq> bit y 15 then pc XOR 0x1021 else pc) XOR py"
    by (simp add: ac_simps)
  finally show ?thesis
    by (simp only: spec_crc_feed_def pc_def py_def)
qed

text \<open>
  The eight shifts of \<^verbatim>\<open>calculate_crc\<close> after \<^verbatim>\<open>crc ^= byte << 8\<close> consume the byte one bit at a
  time, from its top bit: the bits not yet consumed ride along in the register.
\<close>

lemma fold_const_funpow: "fold (\<lambda>j. f) [0..<n] s = (f ^^ n) s"
  by (induction n) simp_all

lemma crc_bits_feed:
  "k \<le> 16 \<Longrightarrow>
   (crc_bit ^^ k) (c XOR y)
     = fold (\<lambda>i r. spec_crc_feed 0x1021 r (bit y (15 - i))) [0..<k] c XOR push_bit k y"
proof (induction k)
  case 0
  then show ?case by simp
next
  case (Suc k)
  then have k: "k \<le> 15" by simp
  let ?F = "fold (\<lambda>i r. spec_crc_feed 0x1021 r (bit y (15 - i))) [0..<k] c"
  have "(crc_bit ^^ Suc k) (c XOR y) = crc_bit (?F XOR push_bit k y)"
    using Suc by simp
  also have "\<dots> = spec_crc_feed 0x1021 ?F (bit (push_bit k y) 15) XOR push_bit 1 (push_bit k y)"
    by (rule crc_bit_xor)
  also have "bit (push_bit k y) 15 = bit y (15 - k)"
    using k by (simp add: bit_push_bit_iff)
  also have "push_bit 1 (push_bit k y) = push_bit (Suc k) y"
    by (simp add: push_bit_push_bit)
  finally show ?case
    by simp
qed

lemma crc_byte_feed:
  "crc_byte b crc = fold (\<lambda>t r. spec_crc_feed 0x1021 r t) (byte_bits_msb_first b) crc"
proof -
  let ?y = "push_bit 8 (ucast b) :: 16 word"
  have bits: "bit ?y (15 - i) = bit b (7 - i)" if "i < 8" for i
    using that by (auto simp: bit_push_bit_iff bit_ucast_iff)
  have "crc_byte b crc = (crc_bit ^^ 8) (crc XOR ?y)"
    by (simp only: crc_byte_def fold_const_funpow)
  also have "\<dots> = fold (\<lambda>i r. spec_crc_feed 0x1021 r (bit ?y (15 - i))) [0..<8] crc
                    XOR push_bit 8 ?y"
    by (rule crc_bits_feed) simp
  also have "push_bit 8 ?y = 0"
    by (simp add: push_bit_push_bit)
  also have "fold (\<lambda>i r. spec_crc_feed 0x1021 r (bit ?y (15 - i))) [0..<8] crc
             = fold (\<lambda>i r. spec_crc_feed 0x1021 r (bit b (7 - i))) [0..<8] crc"
    by (rule fold_cong) (simp_all add: bits)
  also have "\<dots> = fold (\<lambda>t r. spec_crc_feed 0x1021 r t) (map (\<lambda>i. bit b (7 - i)) [0..<8]) crc"
    by (simp only: fold_map comp_def)
  also have "map (\<lambda>i. bit b (7 - i)) [0..<8] = byte_bits_msb_first b"
    by (simp add: byte_bits_msb_first_def upt_rec)
  finally show ?thesis
    by simp
qed

lemma fold_concat_map: "fold f (concat (map g xs)) s = fold (\<lambda>x. fold f (g x)) xs s"
  by (induction xs arbitrary: s) simp_all

text \<open>\<^verbatim>\<open>calculate_crc\<close> computes the CRC-CCITT of the specification on every byte string.\<close>

lemma calculate_crc_spec: "calculate_crc data = spec_crc_ccitt data"
proof -
  have "crc_byte = (\<lambda>b. fold (\<lambda>t r. spec_crc_feed 0x1021 r t) (byte_bits_msb_first b))"
    by (intro ext) (rule crc_byte_feed)
  then show ?thesis
    by (simp only: calculate_crc_def spec_crc_ccitt_def spec_crc_def fold_concat_map)
qed

section \<open>The frame builder\<close>

text \<open>
  Writing \<open>f 0\<close>, \dots, \<open>f (n - 1)\<close> at \<open>off\<close>, \<open>off + 1\<close>, \dots{} extends the prefix of the
  buffer that is already written by these values. The buffer must have room: an update
  beyond the end of a list does nothing, where the C code would write out of bounds.
\<close>

lemma length_fold_upd: "length (fold (\<lambda>i b. b[off + i := f i]) is b) = length b"
  by (induction "is" arbitrary: b) auto

lemma take_fold_upd:
  "off + n \<le> length b \<Longrightarrow>
   take (off + n) (fold (\<lambda>i b. b[off + i := f i]) [0..<n] b) = take off b @ map f [0..<n]"
proof (induction n)
  case 0
  then show ?case by simp
next
  case (Suc n)
  let ?b = "fold (\<lambda>i b. b[off + i := f i]) [0..<n] b"
  have len: "length ?b = length b" by (rule length_fold_upd)
  have "take (off + Suc n) (?b[off + n := f n]) = take (off + n) ?b @ [f n]"
    using Suc.prems len by (simp add: take_Suc_conv_app_nth)
  with Suc show ?case by simp
qed

lemma take_upd_snoc: "p < length b \<Longrightarrow> take (Suc p) (b[p := v]) = take p b @ [v]"
  by (simp add: take_Suc_conv_app_nth)

lemma spec_address_map:
  "map (\<lambda>i. if i < length call then push_bit 1 (call ! i) else push_bit 1 (0x20::byte)) [0..<6]
   = map (push_bit 1) (take 6 (call @ replicate 6 0x20))"
  by (rule nth_equalityI) (auto simp: nth_append)

lemma length_encode_address: "length (encode_address call ssid out off l) = length out"
  by (simp add: encode_address_def Let_def length_fold_upd del: upt.simps)

lemma take_encode_address:
  assumes "off + 7 \<le> length out"
  shows "take (off + 7) (encode_address call ssid out off l)
         = take off out @ spec_address call ssid (l \<noteq> 0)"
proof -
  let ?f = "\<lambda>i. if i < length call then push_bit 1 (call ! i) else push_bit 1 (0x20::byte)"
  let ?o = "fold (\<lambda>i b. b[off + i := ?f i]) [0..<6] out"
  let ?v = "push_bit 1 ssid OR (if l \<noteq> 0 then 1 else 0)"
  have len: "length ?o = length out" by (rule length_fold_upd)
  have t6: "take (off + 6) ?o = take off out @ map ?f [0..<6]"
    using assms by (intro take_fold_upd) simp
  have e: "off + 7 = Suc (off + 6)" by simp
  have "take (Suc (off + 6)) (?o[off + 6 := ?v]) = take (off + 6) ?o @ [?v]"
    using assms len by (intro take_upd_snoc) simp
  then have "take (off + 7) (encode_address call ssid out off l)
             = (take off out @ map ?f [0..<6]) @ [?v]"
    by (simp only: encode_address_def Let_def e t6)
  then show ?thesis
    by (simp only: spec_address_def spec_address_map append_assoc)
qed

lemma ucast_low_byte: "ucast (w AND 0xFF) = (ucast w :: byte)" for w :: "16 word"
proof -
  have e: "(0xFF :: 16 word) = mask 8" by (simp add: mask_eq_exp_minus_1)
  have "ucast (take_bit 8 w) = (ucast w :: byte)"
    by (rule bit_word_eqI) (simp add: bit_simps)
  then show ?thesis
    by (simp only: e take_bit_eq_mask)
qed

lemma length_frame_header: "length (frame_header ty sq tot b off) = length b"
  by (simp add: frame_header_def)

lemma take_frame_header:
  assumes "off + 5 \<le> length b"
  shows "take (off + 5) (frame_header ty sq tot b off) = take off b @ spec_fragment_header ty sq tot"
proof -
  have "frame_header ty sq tot b off
        = fold (\<lambda>i c. c[off + i := spec_fragment_header ty sq tot ! i]) [0..<5] b"
    by (simp add: frame_header_def spec_fragment_header_def ucast_low_byte upt_eval)
  moreover have "map (\<lambda>i. spec_fragment_header ty sq tot ! i) [0..<5] = spec_fragment_header ty sq tot"
    by (simp add: spec_fragment_header_def upt_eval)
  ultimately show ?thesis
    using take_fold_upd [of off 5 b "\<lambda>i. spec_fragment_header ty sq tot ! i"] assms by simp
qed

lemma length_memcpy_at: "length (memcpy_at dst off src n) = length dst"
  by (simp add: memcpy_at_def length_fold_upd)

lemma take_memcpy_at:
  assumes "off + length src \<le> length dst"
  shows "take (off + length src) (memcpy_at dst off src (length src)) = take off dst @ src"
  using take_fold_upd [of off "length src" dst "\<lambda>i. src ! i"] assms
  by (simp add: memcpy_at_def map_nth)


lemma frame_gen_layout_general:
  assumes room: "25 + length payload \<le> length frame_buffer"
  shows "fst (frame_gen config type sequence total_n payload frame_buffer)
           = 20 + (if type \<noteq> FRAME_MESSAGE then 5 else 0) + length payload"
    and "take (fst (frame_gen config type sequence total_n payload frame_buffer))
              (snd (frame_gen config type sequence total_n payload frame_buffer))
           = spec_ax25_frame config type sequence total_n payload"
proof -
  define fb0 where "fb0 = frame_buffer[0 := AX25_FLAG]"
  define fb1 where "fb1 = encode_address (dest_call config) (dest config) fb0 1 0"
  define fb2 where "fb2 = encode_address (source_call config) (source config) fb1 8 1"
  define fb3 where "fb3 = fb2[15 := AX_25_CONTROL]"
  define fb4 where "fb4 = fb3[16 := PID_NoL3]"
  define p5 :: nat where "p5 = (if type \<noteq> FRAME_MESSAGE then 22 else 17)"
  define fb5 where "fb5 = (if type \<noteq> FRAME_MESSAGE
                           then frame_header type sequence total_n fb4 17 else fb4)"
  define p6 where "p6 = p5 + length payload"
  define fb6 where "fb6 = (if length payload > 0
                           then memcpy_at fb5 p5 payload (length payload) else fb5)"
  define fcs where "fcs = calculate_crc (take (p6 - 1) (drop 1 fb6))"
  define fb9 where "fb9 = fb6[p6 := ucast (fcs AND 0xFF),
                              p6 + 1 := ucast (drop_bit 8 fcs AND 0xFF),
                              p6 + 2 := AX25_FLAG]"
  define hdr where "hdr = (if type \<noteq> FRAME_MESSAGE
                           then spec_fragment_header type sequence total_n else [])"
  define body where "body = spec_frame_body config type sequence total_n payload"
  have fg: "frame_gen config type sequence total_n payload frame_buffer = (p6 + 3, fb9)"
    by (simp add: frame_gen_def Let_def fb0_def fb1_def fb2_def fb3_def fb4_def p5_def fb5_def
        p6_def fb6_def fcs_def fb9_def)
  have l0: "length fb0 = length frame_buffer" by (simp add: fb0_def)
  have l1: "length fb1 = length frame_buffer" by (simp add: fb1_def length_encode_address l0)
  have l2: "length fb2 = length frame_buffer" by (simp add: fb2_def length_encode_address l1)
  have l4: "length fb4 = length frame_buffer" by (simp add: fb4_def fb3_def l2)
  have l5: "length fb5 = length frame_buffer" by (simp add: fb5_def length_frame_header l4)
  have l6: "length fb6 = length frame_buffer" by (simp add: fb6_def length_memcpy_at l5)
  have p5le: "p5 \<le> 22" by (simp add: p5_def)
  have t0: "take 1 fb0 = [0x7E]"
    using room by (cases frame_buffer) (simp_all add: fb0_def AX25_FLAG_def)
  have t1: "take 8 fb1 = [0x7E] @ spec_address (dest_call config) (dest config) False"
    using take_encode_address [of 1 fb0 "dest_call config" "dest config" 0] room l0 t0
    by (simp add: fb1_def)
  have t2: "take 15 fb2 = take 8 fb1 @ spec_address (source_call config) (source config) True"
    using take_encode_address [of 8 fb1 "source_call config" "source config" 1] room l1
    by (simp add: fb2_def)
  have t3: "take 16 fb3 = take 15 fb2 @ [0x03]"
    using take_upd_snoc [of 15 fb2 AX_25_CONTROL] room l2
    by (simp add: fb3_def AX_25_CONTROL_def)
  have t4: "take 17 fb4 = take 16 fb3 @ [0xF0]"
    using take_upd_snoc [of 16 fb3 PID_NoL3] room l2
    by (simp add: fb4_def fb3_def PID_NoL3_def)
  have t5: "take p5 fb5 = take 17 fb4 @ hdr"
    using take_frame_header [of 17 fb4 type sequence total_n] room l4
    by (simp add: fb5_def p5_def hdr_def)
  have t6: "take p6 fb6 = take p5 fb5 @ payload"
    using take_memcpy_at [of p5 payload fb5] room l5 p5le
    by (simp add: fb6_def p6_def)
  have pre: "take p6 fb6 = [0x7E] @ body"
    by (simp only: t6 t5 t4 t3 t2 t1 body_def spec_frame_body_def hdr_def append_assoc)
       simp
  have p6pos: "0 < p6" by (simp add: p6_def p5_def)
  have "take (p6 - 1) (drop 1 fb6) = drop 1 (take p6 fb6)"
    using p6pos by (simp add: drop_take)
  then have crc: "fcs = spec_crc_ccitt body"
    by (simp add: fcs_def pre calculate_crc_spec)
  have p6room: "p6 + 3 \<le> length fb6"
    using room p5le by (simp add: l6 p6_def)
  have "take (p6 + 3) fb9 = take p6 fb6 @ [ucast fcs, ucast (drop_bit 8 fcs), 0x7E]"
    using p6room
    by (simp add: fb9_def ucast_low_byte AX25_FLAG_def take_Suc_conv_app_nth numeral_3_eq_3
        nth_list_update)
  then have fin: "take (p6 + 3) fb9 = spec_ax25_frame config type sequence total_n payload"
    by (simp add: pre crc spec_ax25_frame_def Let_def body_def)
  show "fst (frame_gen config type sequence total_n payload frame_buffer)
           = 20 + (if type \<noteq> FRAME_MESSAGE then 5 else 0) + length payload"
    by (simp add: fg p6_def p5_def)
  show "take (fst (frame_gen config type sequence total_n payload frame_buffer))
              (snd (frame_gen config type sequence total_n payload frame_buffer))
           = spec_ax25_frame config type sequence total_n payload"
    by (simp add: fg fin)
qed

text \<open>
  Claim C3. For every link configuration, frame type, sequence, total and payload of at most
  256 bytes, \<^verbatim>\<open>frame_gen\<close>, writing into a 512-byte frame buffer as its callers give it,
  emits exactly: the flag \<open>0x7E\<close>; the destination address encoded with \<open>last = 0\<close>; the
  source address encoded with \<open>last = 1\<close>; control \<open>0x03\<close>; PID \<open>0xF0\<close>; the 5-byte
  fragment header if and only if the type is not \<open>MESSAGE\<close>; the payload; the frame check
  sequence, low byte first, which is the CRC-CCITT of the specification (\<open>spec_crc_ccitt\<close>:
  polynomial \<open>0x1021\<close>, initial value \<open>0xFFFF\<close>, final XOR \<open>0xFFFF\<close>, most significant
  bit first) of every byte between the opening flag and the check sequence itself; and the
  closing flag \<open>0x7E\<close>. The value returned is the number of bytes written. The layout
  \<open>spec_ax25_frame\<close> and its check sequence are defined from the specification alone; that
  \<^verbatim>\<open>calculate_crc\<close>, which \<^verbatim>\<open>frame_gen\<close> calls, computes this CRC is part of the proof.
\<close>

theorem frame_gen_layout:
  assumes "length payload \<le> 256" and "length frame_buffer = 512"
  shows "fst (frame_gen config type sequence total_n payload frame_buffer)
           = length (spec_ax25_frame config type sequence total_n payload)
         \<and> take (fst (frame_gen config type sequence total_n payload frame_buffer))
                (snd (frame_gen config type sequence total_n payload frame_buffer))
           = spec_ax25_frame config type sequence total_n payload"
proof -
  have room: "25 + length payload \<le> length frame_buffer"
    using assms by simp
  have len: "length (spec_ax25_frame config type sequence total_n payload)
             = 20 + (if type \<noteq> FRAME_MESSAGE then 5 else 0) + length payload"
    by (auto simp: spec_ax25_frame_def spec_frame_body_def spec_address_def
        spec_fragment_header_def Let_def)
  show ?thesis
    using frame_gen_layout_general [OF room, of config type sequence total_n]
    by (simp only: len)
qed

theorem frame_gen_layout_witness:
  "length [0x41 :: byte] \<le> 256 \<and> length (replicate 512 (0 :: byte)) = 512 \<and>
   fst (frame_gen main_config FRAME_MESSAGE 0 1 [0x41] (replicate 512 0)) = 21 \<and>
   take (fst (frame_gen main_config FRAME_MESSAGE 0 1 [0x41] (replicate 512 0)))
        (snd (frame_gen main_config FRAME_MESSAGE 0 1 [0x41] (replicate 512 0)))
     = [0x7E, 0x86, 0xA2, 0x40, 0x40, 0x40, 0x40, 0x00, 0x9C, 0x60, 0x86, 0x82, 0x98, 0x98, 0x01,
        0x03, 0xF0, 0x41, 0x55, 0x78, 0x7E]"
proof -
  have a: "length [0x41 :: byte] \<le> 256" by simp
  have b: "length (replicate 512 (0 :: byte)) = 512" by simp
  have fr: "spec_ax25_frame main_config FRAME_MESSAGE 0 1 [0x41]
            = [0x7E, 0x86, 0xA2, 0x40, 0x40, 0x40, 0x40, 0x00, 0x9C, 0x60, 0x86, 0x82, 0x98, 0x98,
               0x01, 0x03, 0xF0, 0x41, 0x55, 0x78, 0x7E]"
    by code_simp
  have n: "length [0x7E, 0x86, 0xA2, 0x40, 0x40, 0x40, 0x40, 0x00, 0x9C, 0x60, 0x86, 0x82, 0x98,
                   0x98, 0x01, 0x03, 0xF0, 0x41, 0x55, 0x78, 0x7E :: byte] = 21"
    by simp
  note th = frame_gen_layout [OF a b, of main_config FRAME_MESSAGE 0 1, unfolded fr n]
  show ?thesis
    using th a b by blast
qed

text \<open>
  Claim C6, as the code has it. For the payload "HELLO", source "N0CALL" with SSID 0,
  destination "CQ" with SSID 0 and the frame type \<open>BEACON\<close>, the frame built in a 512-byte
  buffer is \<open>7E 86 A2 40 40 40 40 00 9C 60 86 82 98 98 01 03 F0 00 00 00 00 01 48 45 4C 4C 4F\<close>,
  then the check sequence \<open>56 E6\<close>, then \<open>7E\<close>: the destination field holds "CQ" shifted
  left (\<open>86 A2\<close>) and both SSID bytes are \<open>(ssid << 1) | last\<close>, that is \<open>00\<close> and \<open>01\<close>.
\<close>

theorem beacon_hello_frame:
  assumes "length frame_buffer = 512"
  shows "take (fst (create_beacon_frame main_config [0x48, 0x45, 0x4C, 0x4C, 0x4F] frame_buffer))
              (snd (create_beacon_frame main_config [0x48, 0x45, 0x4C, 0x4C, 0x4F] frame_buffer))
         = [0x7E, 0x86, 0xA2, 0x40, 0x40, 0x40, 0x40, 0x00, 0x9C, 0x60, 0x86, 0x82, 0x98, 0x98,
            0x01, 0x03, 0xF0, 0x00, 0x00, 0x00, 0x00, 0x01, 0x48, 0x45, 0x4C, 0x4C, 0x4F,
            0x56, 0xE6, 0x7E]"
proof -
  have room: "25 + length [0x48, 0x45, 0x4C, 0x4C, 0x4F :: byte] \<le> length frame_buffer"
    using assms by simp
  have fr: "spec_ax25_frame main_config BEACON_FRAME 0 1 [0x48, 0x45, 0x4C, 0x4C, 0x4F]
            = [0x7E, 0x86, 0xA2, 0x40, 0x40, 0x40, 0x40, 0x00, 0x9C, 0x60, 0x86, 0x82, 0x98, 0x98,
               0x01, 0x03, 0xF0, 0x00, 0x00, 0x00, 0x00, 0x01, 0x48, 0x45, 0x4C, 0x4C, 0x4F,
               0x56, 0xE6, 0x7E]"
    by code_simp
  show ?thesis
    using frame_gen_layout_general(2) [OF room, of main_config BEACON_FRAME 0 1]
    by (simp only: create_beacon_frame_def fr)
qed

theorem beacon_hello_frame_witness:
  "length (replicate 512 (0 :: byte)) = 512 \<and>
   take (fst (create_beacon_frame main_config [0x48, 0x45, 0x4C, 0x4C, 0x4F] (replicate 512 0)))
        (snd (create_beacon_frame main_config [0x48, 0x45, 0x4C, 0x4C, 0x4F] (replicate 512 0)))
     = [0x7E, 0x86, 0xA2, 0x40, 0x40, 0x40, 0x40, 0x00, 0x9C, 0x60, 0x86, 0x82, 0x98, 0x98,
        0x01, 0x03, 0xF0, 0x00, 0x00, 0x00, 0x00, 0x01, 0x48, 0x45, 0x4C, 0x4C, 0x4F,
        0x56, 0xE6, 0x7E]"
proof -
  have b: "length (replicate 512 (0 :: byte)) = 512" by simp
  show ?thesis
    using beacon_hello_frame [OF b] b by blast
qed

text \<open>
  The prefix that claim C6 states, \<open>7E A6 84 40 40 40 40 60 9C 60 86 82 98 98 61 \<dots>\<close>, is not
  what the code builds: the frame differs from it at the destination call sign and at both
  SSID bytes.
\<close>

theorem beacon_hello_prefix_differs:
  "take 27 (snd (create_beacon_frame main_config [0x48, 0x45, 0x4C, 0x4C, 0x4F] (replicate 512 0)))
   \<noteq> [0x7E, 0xA6, 0x84, 0x40, 0x40, 0x40, 0x40, 0x60, 0x9C, 0x60, 0x86, 0x82, 0x98, 0x98,
       0x61, 0x03, 0xF0, 0x00, 0x00, 0x00, 0x00, 0x01, 0x48, 0x45, 0x4C, 0x4C, 0x4F]"
proof -
  let ?r = "create_beacon_frame main_config [0x48, 0x45, 0x4C, 0x4C, 0x4F] (replicate 512 0)"
  have room: "25 + length [0x48, 0x45, 0x4C, 0x4C, 0x4F :: byte] \<le> length (replicate 512 (0::byte))"
    by simp
  have fr: "spec_ax25_frame main_config BEACON_FRAME 0 1 [0x48, 0x45, 0x4C, 0x4C, 0x4F]
            = [0x7E, 0x86, 0xA2, 0x40, 0x40, 0x40, 0x40, 0x00, 0x9C, 0x60, 0x86, 0x82, 0x98, 0x98,
               0x01, 0x03, 0xF0, 0x00, 0x00, 0x00, 0x00, 0x01, 0x48, 0x45, 0x4C, 0x4C, 0x4F,
               0x56, 0xE6, 0x7E]"
    by code_simp
  have n: "fst ?r = 30"
    using frame_gen_layout_general(1) [OF room, of main_config BEACON_FRAME 0 1]
    by (simp add: create_beacon_frame_def)
  have full: "take 30 (snd ?r)
            = [0x7E, 0x86, 0xA2, 0x40, 0x40, 0x40, 0x40, 0x00, 0x9C, 0x60, 0x86, 0x82, 0x98, 0x98,
               0x01, 0x03, 0xF0, 0x00, 0x00, 0x00, 0x00, 0x01, 0x48, 0x45, 0x4C, 0x4C, 0x4F,
               0x56, 0xE6, 0x7E]"
    using frame_gen_layout_general(2) [OF room, of main_config BEACON_FRAME 0 1]
    by (simp only: create_beacon_frame_def fr n [unfolded create_beacon_frame_def])
  have "take 27 (snd ?r) = take 27 (take 30 (snd ?r))"
    by simp
  also have "\<dots> = [0x7E, 0x86, 0xA2, 0x40, 0x40, 0x40, 0x40, 0x00, 0x9C, 0x60, 0x86, 0x82, 0x98,
                  0x98, 0x01, 0x03, 0xF0, 0x00, 0x00, 0x00, 0x00, 0x01, 0x48, 0x45, 0x4C, 0x4C, 0x4F]"
    by (simp only: full) simp
  finally show ?thesis
    by simp
qed

section \<open>The packetizer\<close>

lemma chunk_take:
  "take (if off + 256 > length data then length data - off else 256) (drop off data)
   = take 256 (drop off data)"
  by simp

lemma packet_frame_spec:
  assumes "length buf0 = 512"
  shows "packet_frame config data total_packets buf0 packet
         = spec_ax25_frame config
             (if total_packets = 1 then FRAME_DATA_HEADER
              else if packet = 0 then FRAME_DATA_FIRST
              else if packet = total_packets - 1 then FRAME_DATA_END
              else FRAME_DATA)
             (word_of_nat packet) (word_of_nat total_packets)
             (take 256 (drop (packet * 256) data))"
proof -
  let ?chunk = "take 256 (drop (packet * 256) data)"
  let ?ty = "if total_packets = 1 then FRAME_DATA_HEADER
             else if packet = 0 then FRAME_DATA_FIRST
             else if packet = total_packets - 1 then FRAME_DATA_END
             else FRAME_DATA"
  let ?r = "frame_gen config ?ty (word_of_nat packet) (word_of_nat total_packets) ?chunk buf0"
  have room: "25 + length ?chunk \<le> length buf0"
    using assms by simp
  have "packet_frame config data total_packets buf0 packet = take (fst ?r) (snd ?r)"
    by (simp only: packet_frame_def MAX_PAYLOAD_def Let_def chunk_take case_prod_unfold)
  then show ?thesis
    by (simp only: frame_gen_layout_general(2) [OF room])
qed

lemma concat_chunks:
  "concat (map (\<lambda>i. take n (drop (i * n) xs)) [0..<k]) = take (k * n) xs"
proof (induction k)
  case 0
  then show ?case by simp
next
  case (Suc k)
  have "take (k * n) xs @ take n (drop (k * n) xs) = take (k * n + n) xs"
    by (simp add: take_add)
  with Suc show ?case by (simp add: add.commute)
qed


lemma length_spec_address: "length (spec_address call ssid l) = 7"
  by (simp add: spec_address_def)

lemma header_of_spec_frame:
  "type \<noteq> FRAME_MESSAGE \<Longrightarrow>
   take 5 (drop 17 (spec_ax25_frame config type sq tot payload)) = spec_fragment_header type sq tot"
  by (simp add: spec_ax25_frame_def spec_frame_body_def Let_def length_spec_address
      spec_fragment_header_def)

text \<open>
  Claim C4, as the code has it. For every payload of length \<open>L\<close> with
  \<open>0 < L \<le> 65535 * 256\<close>, packetized with a 512-byte frame buffer, the packetizer returns
  \<open>total = ceil(L / 256)\<close> and emits that many frames. Frame \<open>i\<close> is the AX.25 frame of
  type \<open>DATA_HEADER\<close> when \<open>total = 1\<close>, else \<open>DATA_FIRST\<close> for \<open>i = 0\<close>, \<open>DATA_END\<close>
  for \<open>i = total - 1\<close> and \<open>DATA\<close> otherwise; its 16-bit header fields hold the sequence
  \<open>i\<close> and the shared \<open>total\<close>; its chunk has exactly 256 bytes unless it is the last
  one, which has between 1 and 256; and the chunks, concatenated in sequence order, are the
  payload. The bound on \<open>L\<close> is what the two-byte header fields can hold: the code converts
  the frame index and the count to \<^verbatim>\<open>uint16_t\<close>.
\<close>

theorem packetization_frames:
  assumes "0 < length data" and "length data \<le> 65535 * 256" and "length buf0 = 512"
  shows "\<exists>chunks.
           (let frames = fst (packetization config data buf0);
                total = snd (packetization config data buf0)
            in (total - 1) * 256 < length data \<and> length data \<le> total * 256 \<and>
               length frames = total \<and> length chunks = total \<and> concat chunks = data \<and>
               (\<forall>i<total.
                  frames ! i = spec_ax25_frame config
                      (if total = 1 then FRAME_DATA_HEADER
                       else if i = 0 then FRAME_DATA_FIRST
                       else if i = total - 1 then FRAME_DATA_END
                       else FRAME_DATA)
                      (word_of_nat i) (word_of_nat total) (chunks ! i) \<and>
                  unat (word_of_nat i :: 16 word) = i \<and>
                  unat (word_of_nat total :: 16 word) = total \<and>
                  (i + 1 < total \<longrightarrow> length (chunks ! i) = 256) \<and>
                  0 < length (chunks ! i) \<and> length (chunks ! i) \<le> 256))"
proof -
  define total where "total = (length data + 255) div 256"
  define chunks where "chunks = map (\<lambda>i. take 256 (drop (i * 256) data)) [0..<total]"
  have pk: "packetization config data buf0
            = (map (packet_frame config data total buf0) [0..<total], total)"
  proof -
    have "(length data + MAX_PAYLOAD - 1) div MAX_PAYLOAD = total"
      by (simp add: MAX_PAYLOAD_def total_def)
    then show ?thesis
      by (simp only: packetization_def Let_def)
  qed
  have lo: "(total - 1) * 256 < length data"
    using assms(1) unfolding total_def by arith
  have hi: "length data \<le> total * 256"
    unfolding total_def by arith
  have small: "total \<le> 65535"
    using assms(2) unfolding total_def by arith
  have cc: "concat chunks = data"
    using hi by (simp add: chunks_def concat_chunks)
  have each: "map (packet_frame config data total buf0) [0..<total] ! i
                  = spec_ax25_frame config
                      (if total = 1 then FRAME_DATA_HEADER
                       else if i = 0 then FRAME_DATA_FIRST
                       else if i = total - 1 then FRAME_DATA_END
                       else FRAME_DATA)
                      (word_of_nat i) (word_of_nat total) (chunks ! i) \<and>
                  unat (word_of_nat i :: 16 word) = i \<and>
                  unat (word_of_nat total :: 16 word) = total \<and>
                  (i + 1 < total \<longrightarrow> length (chunks ! i) = 256) \<and>
                  0 < length (chunks ! i) \<and> length (chunks ! i) \<le> 256"
    if "i < total" for i
  proof -
    have ci: "chunks ! i = take 256 (drop (i * 256) data)"
      using that by (simp add: chunks_def)
    have fi: "map (packet_frame config data total buf0) [0..<total] ! i
              = packet_frame config data total buf0 i"
      using that by simp
    have off: "i * 256 < length data"
    proof -
      from that have "i \<le> total - 1" by simp
      then have "i * 256 \<le> (total - 1) * 256" by (rule mult_le_mono1)
      with lo show ?thesis by simp
    qed
    have full: "(i + 1) * 256 \<le> length data" if "i + 1 < total"
    proof -
      from that have "i + 1 \<le> total - 1" by simp
      then have "(i + 1) * 256 \<le> (total - 1) * 256" by (rule mult_le_mono1)
      with lo show ?thesis by simp
    qed
    have ui: "unat (word_of_nat i :: 16 word) = i"
      using that small by (simp add: unat_of_nat)
    have ut: "unat (word_of_nat total :: 16 word) = total"
      using small by (simp add: unat_of_nat)
    have l1: "i + 1 < total \<longrightarrow> length (chunks ! i) = 256"
      using full by (auto simp: ci)
    have l2: "0 < length (chunks ! i)"
      using off by (simp add: ci)
    have l3: "length (chunks ! i) \<le> 256"
      by (simp add: ci)
    have fr: "map (packet_frame config data total buf0) [0..<total] ! i
              = spec_ax25_frame config
                      (if total = 1 then FRAME_DATA_HEADER
                       else if i = 0 then FRAME_DATA_FIRST
                       else if i = total - 1 then FRAME_DATA_END
                       else FRAME_DATA)
                      (word_of_nat i) (word_of_nat total) (chunks ! i)"
      by (simp only: fi ci packet_frame_spec [OF assms(3)])
    show ?thesis
      by (intro conjI fr ui ut l1 l2 l3)
  qed
  have lf: "length (map (packet_frame config data total buf0) [0..<total]) = total"
    by simp
  have lc: "length chunks = total"
    by (simp add: chunks_def)
  have every: "\<forall>i<total.
            map (packet_frame config data total buf0) [0..<total] ! i = spec_ax25_frame config
                      (if total = 1 then FRAME_DATA_HEADER
                       else if i = 0 then FRAME_DATA_FIRST
                       else if i = total - 1 then FRAME_DATA_END
                       else FRAME_DATA)
                      (word_of_nat i) (word_of_nat total) (chunks ! i) \<and>
                  unat (word_of_nat i :: 16 word) = i \<and>
                  unat (word_of_nat total :: 16 word) = total \<and>
                  (i + 1 < total \<longrightarrow> length (chunks ! i) = 256) \<and>
                  0 < length (chunks ! i) \<and> length (chunks ! i) \<le> 256"
  proof (rule allI, rule impI)
    fix i
    assume "i < total"
    then show "map (packet_frame config data total buf0) [0..<total] ! i = spec_ax25_frame config
                      (if total = 1 then FRAME_DATA_HEADER
                       else if i = 0 then FRAME_DATA_FIRST
                       else if i = total - 1 then FRAME_DATA_END
                       else FRAME_DATA)
                      (word_of_nat i) (word_of_nat total) (chunks ! i) \<and>
                  unat (word_of_nat i :: 16 word) = i \<and>
                  unat (word_of_nat total :: 16 word) = total \<and>
                  (i + 1 < total \<longrightarrow> length (chunks ! i) = 256) \<and>
                  0 < length (chunks ! i) \<and> length (chunks ! i) \<le> 256"
      by (rule each)
  qed
  have main: "(total - 1) * 256 < length data \<and> length data \<le> total * 256 \<and>
        length (map (packet_frame config data total buf0) [0..<total]) = total \<and>
        length chunks = total \<and> concat chunks = data \<and>
        (\<forall>i<total.
            map (packet_frame config data total buf0) [0..<total] ! i = spec_ax25_frame config
                      (if total = 1 then FRAME_DATA_HEADER
                       else if i = 0 then FRAME_DATA_FIRST
                       else if i = total - 1 then FRAME_DATA_END
                       else FRAME_DATA)
                      (word_of_nat i) (word_of_nat total) (chunks ! i) \<and>
                  unat (word_of_nat i :: 16 word) = i \<and>
                  unat (word_of_nat total :: 16 word) = total \<and>
                  (i + 1 < total \<longrightarrow> length (chunks ! i) = 256) \<and>
                  0 < length (chunks ! i) \<and> length (chunks ! i) \<le> 256)"
    by (intro conjI lo hi lf lc cc every)
  show ?thesis
    unfolding pk Let_def fst_conv snd_conv by (rule exI [of _ chunks]) (fact main)
qed

theorem packetization_frames_witness:
  "0 < length (replicate 513 (0 :: byte)) \<and> length (replicate 513 (0 :: byte)) \<le> 65535 * 256 \<and>
   length (replicate 512 (0 :: byte)) = 512 \<and>
   (\<exists>chunks.
           (let frames = fst (packetization main_config (replicate 513 0) (replicate 512 0));
                total = snd (packetization main_config (replicate 513 0) (replicate 512 0))
            in (total - 1) * 256 < length (replicate 513 (0 :: byte)) \<and>
               length (replicate 513 (0 :: byte)) \<le> total * 256 \<and>
               length frames = total \<and> length chunks = total \<and>
               concat chunks = replicate 513 0 \<and>
               (\<forall>i<total.
                  frames ! i = spec_ax25_frame main_config
                      (if total = 1 then FRAME_DATA_HEADER
                       else if i = 0 then FRAME_DATA_FIRST
                       else if i = total - 1 then FRAME_DATA_END
                       else FRAME_DATA)
                      (word_of_nat i) (word_of_nat total) (chunks ! i) \<and>
                  unat (word_of_nat i :: 16 word) = i \<and>
                  unat (word_of_nat total :: 16 word) = total \<and>
                  (i + 1 < total \<longrightarrow> length (chunks ! i) = 256) \<and>
                  0 < length (chunks ! i) \<and> length (chunks ! i) \<le> 256)))"
proof -
  have a: "0 < length (replicate 513 (0 :: byte))" by simp
  have b: "length (replicate 513 (0 :: byte)) \<le> 65535 * 256" by simp
  have c: "length (replicate 512 (0 :: byte)) = 512" by simp
  show ?thesis
    by (intro conjI a b c packetization_frames [OF a b c])
qed

text \<open>
  Without the bound, claim C4 fails: a payload of \<open>65536 * 256 + 1\<close> bytes gives 65537
  frames, and the fragment header of the last one, frame 65536, reads type \<open>DATA_END\<close>,
  sequence 0 and total 1.
\<close>

theorem packetization_sequence_wraps:
  "length (fst (packetization main_config (replicate 16777217 0) (replicate 512 0))) = 65537 \<and>
   take 5 (drop 17 (fst (packetization main_config (replicate 16777217 0) (replicate 512 0))
                      ! 65536))
     = [4, 0, 0, 0, 1]"
proof -
  have c: "length (replicate 512 (0 :: byte)) = 512" by simp
  have tot: "(length (replicate 16777217 (0 :: byte)) + MAX_PAYLOAD - 1) div MAX_PAYLOAD = 65537"
    by (simp add: MAX_PAYLOAD_def)
  have pk: "packetization main_config (replicate 16777217 0) (replicate 512 0)
            = (map (packet_frame main_config (replicate 16777217 0) 65537 (replicate 512 0))
                 [0..<65537], 65537)"
    by (simp only: packetization_def Let_def tot)
  have len: "length (fst (packetization main_config (replicate 16777217 0) (replicate 512 0)))
             = 65537"
    by (simp only: pk fst_conv length_map length_upt diff_zero)
  have "fst (packetization main_config (replicate 16777217 0) (replicate 512 0)) ! 65536
        = packet_frame main_config (replicate 16777217 0) 65537 (replicate 512 0) (0 + 65536)"
    by (simp only: pk fst_conv) (rule nth_map_upt, simp)
  also have "\<dots> = spec_ax25_frame main_config FRAME_DATA_END (word_of_nat 65536)
                    (word_of_nat 65537) (take 256 (drop (65536 * 256) (replicate 16777217 0)))"
    by (simp only: packet_frame_spec [OF c] add_0) simp
  finally have fr: "fst (packetization main_config (replicate 16777217 0) (replicate 512 0)) ! 65536
        = spec_ax25_frame main_config FRAME_DATA_END (word_of_nat 65536)
             (word_of_nat 65537) (take 256 (drop (65536 * 256) (replicate 16777217 0)))" .
  have h: "take 5 (drop 17 (spec_ax25_frame main_config FRAME_DATA_END sq tot p))
           = spec_fragment_header FRAME_DATA_END sq tot" for sq tot p
    by (rule header_of_spec_frame) simp
  have hd: "spec_fragment_header FRAME_DATA_END (word_of_nat 65536) (word_of_nat 65537)
            = [4, 0, 0, 0, 1]"
    by (simp add: spec_fragment_header_def)
  show ?thesis
    by (simp only: len fr h hd)
qed

section \<open>The Reed--Solomon decoder\<close>

subsection \<open>Table reads of the field operations\<close>

text \<open>
  \<^verbatim>\<open>gf_pow\<close> reads \<^verbatim>\<open>gf_exp\<close> inside the table whenever its exponent is not negative.
\<close>

lemma gf_pow_0: "gf_pow b 0 = Some 1"
  by (simp add: gf_eval)

lemma c_mod_nonneg: "0 \<le> a \<Longrightarrow> 0 \<le> c_mod a 255 \<and> c_mod a 255 < 255"
  by (simp add: c_mod_def)

lemma gf_pow_nonneg: "0 \<le> e \<Longrightarrow> gf_pow b e \<noteq> None"
proof -
  assume e: "0 \<le> e"
  have "0 \<le> uint (gf_log ! unat b) * e"
    using e by simp
  from c_mod_nonneg [OF this] show ?thesis
    by (simp add: gf_pow_def gf_exp_at_def)
qed

lemma gf_mult_0_left: "gf_mult 0 b = 0"
  by (simp add: gf_mult_def)

text \<open>
  The inner loop of \<^verbatim>\<open>compute_syndromes\<close> passes over zero symbols unchanged, so the
  syndromes of a word that is zero outside a window are a sum over that window.
\<close>

lemma syndrome_fold_zeros:
  assumes "\<forall>j\<in>set js. received ! j = 0"
  shows "fold (\<lambda>j acc. do { s \<leftarrow> acc; p \<leftarrow> gf_pow a (int j);
                            Some (s XOR gf_mult (received ! j) p) }) js acc = acc"
  using assms
proof (induction js arbitrary: acc)
  case Nil
  then show ?case by simp
next
  case (Cons j js)
  have "gf_pow a (int j) \<noteq> None"
    by (rule gf_pow_nonneg) simp
  then obtain p where p: "gf_pow a (int j) = Some p"
    by blast
  have "(do { s \<leftarrow> acc; p \<leftarrow> gf_pow a (int j); Some (s XOR gf_mult (received ! j) p) }) = acc"
    using Cons.prems by (cases acc) (simp_all add: p gf_mult_0_left)
  with Cons show ?case by simp
qed

lemma syndrome_window:
  assumes "a + length xs + b = 255"
  shows "syndrome (replicate a 0 @ xs @ replicate b 0) i =
           do { alpha_i \<leftarrow> gf_pow ALPHA (int i);
                fold (\<lambda>j acc. do { s \<leftarrow> acc; p \<leftarrow> gf_pow alpha_i (int (a + j));
                                   Some (s XOR gf_mult (xs ! j) p) })
                     [0..<length xs] (Some 0) }"
proof -
  let ?r = "replicate a 0 @ xs @ replicate b 0"
  let ?F = "\<lambda>al j acc. do { s \<leftarrow> acc; p \<leftarrow> gf_pow al (int j);
                            Some (s XOR gf_mult (?r ! j) p) }"
  have "[0..<a + length xs + b] = [0..<a] @ [a..<a + length xs] @ [a + length xs..<a + length xs + b]"
    using upt_add_eq_append [of 0 a "length xs + b"] upt_add_eq_append [of a "a + length xs" b]
    by (simp add: add.assoc)
  then have split: "[0..<N] = [0..<a] @ [a..<a + length xs] @ [a + length xs..<255]"
    by (simp only: assms N_def)
  have z1: "fold (?F al) [0..<a] acc = acc" for al acc
    by (rule syndrome_fold_zeros) (simp add: nth_append)
  have z2: "fold (?F al) [a + length xs..<255] acc = acc" for al acc
    using assms by (intro syndrome_fold_zeros) (auto simp: nth_append)
  have mid: "fold (?F al) [a..<a + length xs] acc
             = fold (\<lambda>j acc. do { s \<leftarrow> acc; p \<leftarrow> gf_pow al (int (a + j));
                                  Some (s XOR gf_mult (xs ! j) p) }) [0..<length xs] acc" for al acc
  proof -
    have "[a..<a + length xs] = map (\<lambda>j. a + j) [0..<length xs]"
      by (simp add: map_add_upt add.commute)
    then have "fold (?F al) [a..<a + length xs] acc
               = fold (?F al \<circ> (\<lambda>j. a + j)) [0..<length xs] acc"
      by (simp only: fold_map)
    also have "\<dots> = fold (\<lambda>j acc. do { s \<leftarrow> acc; p \<leftarrow> gf_pow al (int (a + j));
                                  Some (s XOR gf_mult (xs ! j) p) }) [0..<length xs] acc"
      by (rule fold_cong) (auto simp: nth_append)
    finally show ?thesis .
  qed
  show ?thesis
    by (simp only: syndrome_def split fold_append comp_apply z1 z2 mid)
qed

subsection \<open>Status of the position loop\<close>

text \<open>
  Whenever the position loop returns with a status other than \<open>-1\<close>, it has found exactly
  \<open>deg_lambda\<close> error positions, and at most \<open>T\<close> of them.
\<close>

lemma find_loop_status:
  assumes "find_loop lam om deg ps cnt c = Some (st, c')" and "cnt \<le> T"
  shows "st = - 1 \<or>
         (st = int (cnt + length (filter (\<lambda>i. chien_sum lam deg i = Some 0) ps)) \<and>
          cnt + length (filter (\<lambda>i. chien_sum lam deg i = Some 0) ps) = deg \<and>
          cnt + length (filter (\<lambda>i. chien_sum lam deg i = Some 0) ps) \<le> T)"
  using assms
proof (induction ps arbitrary: cnt c)
  case Nil
  then show ?case by (auto split: if_splits)
next
  case (Cons i ps)
  show ?case
  proof (cases "chien_sum lam deg i")
    case None
    with Cons.prems show ?thesis by simp
  next
    case (Some sm)
    show ?thesis
    proof (cases "sm = 0")
      case False
      with Some Cons.prems have "find_loop lam om deg ps cnt c = Some (st, c')"
        by simp
      from Cons.IH [OF this Cons.prems(2)] show ?thesis
        using Some False by simp
    next
      case True
      show ?thesis
      proof (cases "cnt + 1 > T")
        case over: True
        with Some True Cons.prems show ?thesis by simp
      next
        case under: False
        with Some True Cons.prems obtain c2 where
          rec: "find_loop lam om deg ps (cnt + 1) c2 = Some (st, c')"
          by (auto simp: Option.bind_eq_Some_conv split: if_splits)
        have "cnt + 1 \<le> T" using under by simp
        from Cons.IH [OF rec this] show ?thesis
          using Some True by simp
      qed
    qed
  qed
qed

lemma find_and_correct_errors_status:
  assumes "find_and_correct_errors lam om deg c = Some (st, c')"
  shows "st = - 1 \<or> (st = int deg \<and> length (chien_roots lam deg) = deg \<and> deg \<le> T)"
  using find_loop_status [of lam om deg "[0..<N]" 0 c st c'] assms
  by (auto simp: find_and_correct_errors_def chien_roots_def)

lemma find_and_correct_errors_nonzero:
  assumes "find_and_correct_errors lam om deg c = Some (st, c')" and "deg \<noteq> 0"
  shows "st \<noteq> 0"
  using find_and_correct_errors_status [OF assms(1)] assms(2) by auto

text \<open>The syndrome computation never reads outside the tables.\<close>

lemma syndrome_total: "syndrome received i \<noteq> None"
proof -
  obtain a where a: "gf_pow ALPHA (int i) = Some a"
    using gf_pow_nonneg [of "int i" ALPHA] by auto
  have "fold (\<lambda>j acc. do { s \<leftarrow> acc; p \<leftarrow> gf_pow a (int j);
                           Some (s XOR gf_mult (received ! j) p) }) js (Some s) \<noteq> None" for js s
  proof (induction js arbitrary: s)
    case Nil
    then show ?case by simp
  next
    case (Cons j js)
    obtain p where "gf_pow a (int j) = Some p"
      using gf_pow_nonneg [of "int j" a] by auto
    with Cons show ?case by simp
  qed
  then show ?thesis
    by (simp add: syndrome_def a)
qed

lemma those_map_total: "(\<forall>x\<in>set xs. f x \<noteq> None) \<Longrightarrow> those (map f xs) \<noteq> None"
  by (induction xs) (auto split: option.splits)

lemma compute_syndromes_total: "\<exists>syn. compute_syndromes received = Some syn"
  using those_map_total [of "[0..<PARITY]" "syndrome received"] syndrome_total
  by (auto simp: compute_syndromes_def)

text \<open>
  Claim C9. For every 255-byte received word the 32 syndromes are computed, and: if all of
  them are zero, \<^verbatim>\<open>rs_decode_block\<close> returns status 0 with the word unchanged (whatever
  the word is, so also when it is a codeword other than the one sent); if some syndrome is
  nonzero but \<^verbatim>\<open>berlekamp_massey\<close> returns degree 0, it also returns status 0 with the
  word unchanged.
\<close>

theorem clean_block_status:
  assumes "length received = N"
  shows "\<exists>syn. compute_syndromes received = Some syn \<and>
           (list_all (\<lambda>s. s = 0) syn \<longrightarrow> rs_decode_block received = Some (0, received)) \<and>
           (\<not> list_all (\<lambda>s. s = 0) syn \<and> fst (berlekamp_massey syn) = 0
              \<longrightarrow> rs_decode_block received = Some (0, received))"
proof -
  obtain syn where syn: "compute_syndromes received = Some syn"
    using compute_syndromes_total by blast
  have "rs_decode_block received = Some (0, received)" if "list_all (\<lambda>s. s = 0) syn"
    using that assms by (simp add: rs_decode_block_def syn)
  moreover have "rs_decode_block received = Some (0, received)"
    if "\<not> list_all (\<lambda>s. s = 0) syn \<and> fst (berlekamp_massey syn) = 0"
  proof -
    obtain deg lam om where bm: "berlekamp_massey syn = (deg, lam, om)"
      by (cases "berlekamp_massey syn") auto
    with that have "deg = 0" by simp
    with that assms show ?thesis
      by (simp add: rs_decode_block_def syn bm)
  qed
  ultimately show ?thesis
    using syn by blast
qed

subsection \<open>A locator without nonzero coefficients\<close>






subsection \<open>Padding removal on the last block\<close>




subsection \<open>The decoder on concrete words\<close>

text \<open>
  Syndromes, locator and position loop for: the word with the single byte 1, and with the
  single byte 2, at position 0; the coefficients of the generator polynomial followed by
  zeros; a word whose only nonzero syndrome is the first one; and the encoder's output for
  the data block that ends in a single 1.
\<close>

lemma syndrome_first_symbol:
  "syndrome (e # replicate 254 0) i =
     do { alpha_i \<leftarrow> gf_pow ALPHA (int i);
          fold (\<lambda>j acc. do { s \<leftarrow> acc; p \<leftarrow> gf_pow alpha_i (int (0 + j));
                             Some (s XOR gf_mult ([e] ! j) p) }) [0..<length [e]] (Some 0) }"
  using syndrome_window [of 0 "[e]" 254 i] by simp

lemma syndromes_bit_flip:
  "compute_syndromes (1 # replicate 254 0) = Some (replicate 32 1)"
  by (simp add: compute_syndromes_def PARITY_def ALPHA_def syndrome_first_symbol gf_eval upt_eval
      loop_eval replicate_numeral_unfold [where x = "1 :: byte"] del: fold.simps)

lemma syndromes_bit_flip_nonzero: "\<not> list_all (\<lambda>s. s = 0) (replicate 32 1 :: byte list)"
  by (simp add: list_all_iff)

lemma syndromes_first_two:
  "compute_syndromes (2 # replicate 254 0) = Some [2, 2, 2, 2, 2, 2, 2, 2, 2, 2, 2, 2, 2, 2, 2, 2, 2, 2, 2, 2, 2, 2, 2, 2, 2, 2, 2,
         2, 2, 2, 2, 2]"
  by (simp add: compute_syndromes_def PARITY_def ALPHA_def syndrome_first_symbol gf_eval upt_eval
      loop_eval del: fold.simps)

lemma syndromes_generator_word:
  "compute_syndromes
     ([88, 172, 55, 142, 20, 253, 138, 24, 185, 179, 47, 148, 228, 253, 55, 59, 12, 225,
         197, 176, 157, 33, 33, 162, 194, 16, 126, 54, 174, 52, 64, 116, 1]
      @ replicate 222 0)
   = Some [0, 0, 0, 0, 0, 0, 0, 0, 0, 0, 0, 0, 0, 0, 0, 0, 0, 0, 0, 0, 0, 0, 0, 0, 0, 0, 0,
         0, 0, 0, 0, 0]"
proof -
  have len: "length [88, 172, 55, 142, 20, 253, 138, 24, 185, 179, 47, 148, 228, 253, 55, 59, 12, 225,
         197, 176, 157, 33, 33, 162, 194, 16, 126, 54, 174, 52, 64, 116, 1] = (33::nat)"
    by simp
  have pre: "0 + length [88, 172, 55, 142, 20, 253, 138, 24, 185, 179, 47, 148, 228, 253, 55, 59, 12, 225,
         197, 176, 157, 33, 33, 162, 194, 16, 126, 54, 174, 52, 64, 116, 1] + 222 = (255::nat)"
    by simp
  have "syndrome ([88, 172, 55, 142, 20, 253, 138, 24, 185, 179, 47, 148, 228, 253, 55, 59, 12, 225,
         197, 176, 157, 33, 33, 162, 194, 16, 126, 54, 174, 52, 64, 116, 1] @ replicate 222 0) i =
     do { alpha_i \<leftarrow> gf_pow ALPHA (int i);
          fold (\<lambda>j acc. do { s \<leftarrow> acc; p \<leftarrow> gf_pow alpha_i (int (0 + j));
                             Some (s XOR gf_mult ([88, 172, 55, 142, 20, 253, 138, 24, 185, 179, 47, 148, 228, 253, 55, 59, 12, 225,
         197, 176, 157, 33, 33, 162, 194, 16, 126, 54, 174, 52, 64, 116, 1] ! j) p) }) [0..<33] (Some 0) }" for i
    using syndrome_window [OF pre, of i] by (simp only: len replicate_0 append_Nil)
  note rule = this [unfolded append_Cons append_Nil]
  show ?thesis
    unfolding append_Cons append_Nil
    by (simp add: compute_syndromes_def PARITY_def ALPHA_def gf_eval upt_eval loop_eval rule
        del: fold.simps)
qed

lemma syndromes_locator_free_word:
  "compute_syndromes
     ([88, 244, 195, 77, 89, 164, 46, 54, 143, 60, 19, 135, 99, 158, 169, 146, 158, 127,
         186, 10, 151, 182, 151, 53, 247, 231, 153, 175, 1, 53, 117, 1]
      @ replicate 223 0)
   = Some [146, 0, 0, 0, 0, 0, 0, 0, 0, 0, 0, 0, 0, 0, 0, 0, 0, 0, 0, 0, 0, 0, 0, 0, 0, 0, 0,
         0, 0, 0, 0, 0]"
proof -
  have len: "length [88, 244, 195, 77, 89, 164, 46, 54, 143, 60, 19, 135, 99, 158, 169, 146, 158, 127,
         186, 10, 151, 182, 151, 53, 247, 231, 153, 175, 1, 53, 117, 1] = (32::nat)"
    by simp
  have pre: "0 + length [88, 244, 195, 77, 89, 164, 46, 54, 143, 60, 19, 135, 99, 158, 169, 146, 158, 127,
         186, 10, 151, 182, 151, 53, 247, 231, 153, 175, 1, 53, 117, 1] + 223 = (255::nat)"
    by simp
  have "syndrome ([88, 244, 195, 77, 89, 164, 46, 54, 143, 60, 19, 135, 99, 158, 169, 146, 158, 127,
         186, 10, 151, 182, 151, 53, 247, 231, 153, 175, 1, 53, 117, 1] @ replicate 223 0) i =
     do { alpha_i \<leftarrow> gf_pow ALPHA (int i);
          fold (\<lambda>j acc. do { s \<leftarrow> acc; p \<leftarrow> gf_pow alpha_i (int (0 + j));
                             Some (s XOR gf_mult ([88, 244, 195, 77, 89, 164, 46, 54, 143, 60, 19, 135, 99, 158, 169, 146, 158, 127,
         186, 10, 151, 182, 151, 53, 247, 231, 153, 175, 1, 53, 117, 1] ! j) p) }) [0..<32] (Some 0) }" for i
    using syndrome_window [OF pre, of i] by (simp only: len replicate_0 append_Nil)
  note rule = this [unfolded append_Cons append_Nil]
  show ?thesis
    unfolding append_Cons append_Nil
    by (simp add: compute_syndromes_def PARITY_def ALPHA_def gf_eval upt_eval loop_eval rule
        del: fold.simps)
qed

lemma syndromes_encoded_unit:
  "compute_syndromes
     (replicate 222 0 @
      [1, 88, 172, 55, 142, 20, 253, 138, 24, 185, 179, 47, 148, 228, 253, 55, 59, 12,
         225, 197, 176, 157, 33, 33, 162, 194, 16, 126, 54, 174, 52, 64, 116])
   = Some [0, 139, 86, 229, 196, 222, 187, 142, 206, 243, 151, 40, 63, 230, 71, 39, 138, 220,
         178, 32, 27, 100, 52, 65, 60, 101, 190, 22, 216, 160, 97, 172]"
proof -
  have len: "length [1, 88, 172, 55, 142, 20, 253, 138, 24, 185, 179, 47, 148, 228, 253, 55, 59, 12,
         225, 197, 176, 157, 33, 33, 162, 194, 16, 126, 54, 174, 52, 64, 116] = (33::nat)"
    by simp
  have pre: "222 + length [1, 88, 172, 55, 142, 20, 253, 138, 24, 185, 179, 47, 148, 228, 253, 55, 59, 12,
         225, 197, 176, 157, 33, 33, 162, 194, 16, 126, 54, 174, 52, 64, 116] + 0 = (255::nat)"
    by simp
  have "syndrome (replicate 222 0 @ [1, 88, 172, 55, 142, 20, 253, 138, 24, 185, 179, 47, 148, 228, 253, 55, 59, 12,
         225, 197, 176, 157, 33, 33, 162, 194, 16, 126, 54, 174, 52, 64, 116]) i =
     do { alpha_i \<leftarrow> gf_pow ALPHA (int i);
          fold (\<lambda>j acc. do { s \<leftarrow> acc; p \<leftarrow> gf_pow alpha_i (int (222 + j));
                             Some (s XOR gf_mult ([1, 88, 172, 55, 142, 20, 253, 138, 24, 185, 179, 47, 148, 228, 253, 55, 59, 12,
         225, 197, 176, 157, 33, 33, 162, 194, 16, 126, 54, 174, 52, 64, 116] ! j) p) }) [0..<33] (Some 0) }" for i
    using syndrome_window [OF pre, of i] by (simp only: len replicate_0 append_Nil2)
  then show ?thesis
    by (simp add: compute_syndromes_def PARITY_def ALPHA_def gf_eval upt_eval loop_eval
        del: fold.simps)
qed

lemma bm_bit_flip:
  "berlekamp_massey (replicate 32 1)
   = (1,
      [0, 1, 0, 0, 0, 0, 0, 0, 0, 0, 0, 0, 0, 0, 0, 0, 0, 0, 0, 0, 0, 0, 0, 0, 0, 0, 0,
         0, 0, 0, 0, 0, 0],
      (0 # replicate 31 1))"
  by (simp add: berlekamp_massey_def bm_step_def PARITY_def Let_def gf_eval list_eval
      replicate_numeral_unfold)

lemma bm_first_two:
  "berlekamp_massey [2, 2, 2, 2, 2, 2, 2, 2, 2, 2, 2, 2, 2, 2, 2, 2, 2, 2, 2, 2, 2, 2, 2, 2, 2, 2, 2,
         2, 2, 2, 2, 2]
   = (3,
      [3, 2, 5, 6, 0, 0, 0, 0, 0, 0, 0, 0, 0, 0, 0, 0, 0, 0, 0, 0, 0, 0, 0, 0, 0, 0, 0,
         0, 0, 0, 0, 0, 0],
      [6, 2, 8, 4, 4, 4, 4, 4, 4, 4, 4, 4, 4, 4, 4, 4, 4, 4, 4, 4, 4, 4, 4, 4, 4, 4, 4,
         4, 4, 4, 4, 4])"
  by (simp add: berlekamp_massey_def bm_step_def PARITY_def Let_def gf_eval list_eval
      replicate_numeral_unfold)

lemma bm_encoded_unit:
  "berlekamp_massey [0, 139, 86, 229, 196, 222, 187, 142, 206, 243, 151, 40, 63, 230, 71, 39, 138, 220,
         178, 32, 27, 100, 52, 65, 60, 101, 190, 22, 216, 160, 97, 172]
   = (31,
      [1, 139, 0, 138, 138, 173, 206, 106, 27, 7, 146, 47, 114, 111, 38, 125, 69, 131,
         169, 66, 194, 112, 191, 139, 53, 252, 99, 15, 255, 99, 54, 36, 0],
      [0, 139, 0, 221, 179, 252, 143, 95, 186, 1, 146, 138, 236, 196, 7, 110, 73, 168,
         143, 99, 244, 219, 107, 97, 26, 45, 49, 2, 227, 107, 120, 70])"
  by (simp add: berlekamp_massey_def bm_step_def PARITY_def Let_def gf_eval list_eval
      replicate_numeral_unfold)

lemma bm_locator_free:
  "berlekamp_massey [146, 0, 0, 0, 0, 0, 0, 0, 0, 0, 0, 0, 0, 0, 0, 0, 0, 0, 0, 0, 0, 0, 0, 0, 0, 0, 0,
         0, 0, 0, 0, 0]
   = (0,
      [147, 0, 0, 0, 0, 0, 0, 0, 0, 0, 0, 0, 0, 0, 0, 0, 0, 0, 0, 0, 0, 0, 0, 0, 0, 0, 0,
         0, 0, 0, 0, 0, 0],
      [152, 0, 0, 0, 0, 0, 0, 0, 0, 0, 0, 0, 0, 0, 0, 0, 0, 0, 0, 0, 0, 0, 0, 0, 0, 0, 0,
         0, 0, 0, 0, 0])"
  by (simp add: berlekamp_massey_def bm_step_def PARITY_def Let_def gf_eval list_eval
      replicate_numeral_unfold)

lemma find_bit_flip:
  "find_and_correct_errors
     [0, 1, 0, 0, 0, 0, 0, 0, 0, 0, 0, 0, 0, 0, 0, 0, 0, 0, 0, 0, 0, 0, 0, 0, 0, 0, 0, 0,
      0, 0, 0, 0, 0]
     (0 # replicate 31 1) 1 c
   = Some (- 1, c)"
  by (simp add: find_and_correct_errors_def chien_sum_def N_def T_def ALPHA_def gf_eval list_eval
      loop_eval del: fold.simps)


lemma find_first_two:
  "find_and_correct_errors
     [3, 2, 5, 6, 0, 0, 0, 0, 0, 0, 0, 0, 0, 0, 0, 0, 0, 0, 0, 0, 0, 0, 0, 0, 0, 0, 0, 0,
      0, 0, 0, 0, 0]
     [6, 2, 8, 4, 4, 4, 4, 4, 4, 4, 4, 4, 4, 4, 4, 4, 4, 4, 4, 4, 4, 4, 4, 4, 4, 4, 4, 4,
      4, 4, 4, 4] 3 c
   = None"
  by (simp add: find_and_correct_errors_def chien_sum_def N_def T_def ALPHA_def gf_eval list_eval
      loop_eval del: fold.simps)

lemma find_encoded_unit:
  "find_and_correct_errors
     [1, 139, 0, 138, 138, 173, 206, 106, 27, 7, 146, 47, 114, 111, 38, 125, 69, 131, 169,
      66, 194, 112, 191, 139, 53, 252, 99, 15, 255, 99, 54, 36, 0]
     [0, 139, 0, 221, 179, 252, 143, 95, 186, 1, 146, 138, 236, 196, 7, 110, 73, 168, 143,
      99, 244, 219, 107, 97, 26, 45, 49, 2, 227, 107, 120, 70] 31 c
   = None"
  by (simp add: find_and_correct_errors_def chien_sum_def N_def T_def ALPHA_def gf_eval list_eval
      loop_eval del: fold.simps)

section \<open>The encoder\<close>

lemma generate_polynomial_value:
  "generate_polynomial
   = Some [88, 172, 55, 142, 20, 253, 138, 24, 185, 179, 47, 148, 228, 253, 55, 59, 12, 225,
         197, 176, 157, 33, 33, 162, 194, 16, 126, 54, 174, 52, 64, 116, 1]"
  by (simp add: generate_polynomial_def PARITY_def ALPHA_def gf_eval list_eval
      replicate_numeral_unfold loop_eval del: fold.simps)

lemma gf_mult_0_right: "gf_mult a 0 = 0"
  by (simp add: gf_mult_def)

lemma replicate_update_same: "(replicate n x)[j := x] = replicate n x"
  by (cases "j < n") (auto simp: list_eq_iff_nth_eq nth_list_update)

lemma encode_step_zero:
  assumes "data ! i = 0"
  shows "encode_step g data i (replicate PARITY 0) = replicate PARITY 0"
proof -
  have inner: "fold (\<lambda>j r. r[j := r ! (j - 1) XOR gf_mult (g ! j) 0]) js (replicate 32 0)
               = replicate 32 0" if "\<forall>j\<in>set js. 0 < j \<and> j < 32" for js
    using that
  proof (induction js)
    case Nil
    then show ?case by simp
  next
    case (Cons j js)
    from Cons.prems have "j < 32" by simp
    then have "j - 1 < 32" by arith
    then have "(replicate 32 (0::byte))[j := replicate 32 0 ! (j - 1) XOR gf_mult (g ! j) 0]
          = replicate 32 0"
      by (simp add: gf_mult_0_right replicate_update_same)
    with Cons show ?case by simp
  qed
  have last: "(replicate 32 (0::byte))[0 := gf_mult (g ! 0) 0] = replicate 32 0"
    by (simp add: gf_mult_0_right replicate_update_same)
  have in_range: "\<forall>j\<in>set (rev [1..<32]). 0 < j \<and> j < 32"
    by (simp only: set_rev set_upt) simp
  have "encode_step g data i (replicate 32 0)
        = (fold (\<lambda>j r. r[j := r ! (j - 1) XOR gf_mult (g ! j) 0]) (rev [1..<32])
             (replicate 32 0))[0 := gf_mult (g ! 0) 0]"
    using assms
    by (simp only: encode_step_def PARITY_def Let_def nth_replicate) simp
  then show ?thesis
    by (simp only: inner [OF in_range] last PARITY_def)
qed

lemma encode_zero_prefix:
  assumes "\<forall>i<n. data ! i = 0"
  shows "fold (encode_step g data) [0..<n] (replicate PARITY 0) = replicate PARITY 0"
  using assms
proof (induction n)
  case 0
  then show ?case by simp
next
  case (Suc n)
  then show ?case by (simp add: encode_step_zero)
qed

lemma rs_encode_zero: "rs_encode_block g (replicate 223 0) = replicate 255 0"
proof -
  have "fold (encode_step g (replicate 223 0)) [0..<K] (replicate PARITY 0) = replicate PARITY 0"
    by (rule encode_zero_prefix) (simp add: K_def)
  then show ?thesis
    by (simp add: rs_encode_block_def K_def PARITY_def flip: replicate_add)
qed

lemma rs_encode_unit:
  "rs_encode_block
     [88, 172, 55, 142, 20, 253, 138, 24, 185, 179, 47, 148, 228, 253, 55, 59, 12, 225,
         197, 176, 157, 33, 33, 162, 194, 16, 126, 54, 174, 52, 64, 116, 1]
     (replicate 222 0 @ [1])
   = replicate 222 0 @
     [1, 88, 172, 55, 142, 20, 253, 138, 24, 185, 179, 47, 148, 228, 253, 55, 59, 12,
         225, 197, 176, 157, 33, 33, 162, 194, 16, 126, 54, 174, 52, 64, 116]"
proof -
  let ?g = "[88, 172, 55, 142, 20, 253, 138, 24, 185, 179, 47, 148, 228, 253, 55, 59, 12, 225,
         197, 176, 157, 33, 33, 162, 194, 16, 126, 54, 174, 52, 64, 116, 1]"
  let ?d = "replicate 222 0 @ [1 :: byte]"
  have zeros: "fold (encode_step ?g ?d) [0..<222] (replicate PARITY 0) = replicate PARITY 0"
    by (rule encode_zero_prefix) (simp add: nth_append)
  have d222: "?d ! 222 = 1"
    by (simp add: nth_append)
  have last: "encode_step ?g ?d 222 (replicate PARITY 0)
              = [88, 172, 55, 142, 20, 253, 138, 24, 185, 179, 47, 148, 228, 253, 55, 59, 12, 225,
         197, 176, 157, 33, 33, 162, 194, 16, 126, 54, 174, 52, 64, 116]"
    unfolding encode_step_def d222
    by (simp add: PARITY_def Let_def gf_eval list_eval replicate_numeral_unfold loop_eval
        del: fold.simps)
  have "[0..<Suc 222] = [0..<222] @ [222]"
    by (rule upt_Suc_append) simp
  moreover have "Suc 222 = K"
    by (simp add: K_def)
  ultimately have "[0..<K] = [0..<222] @ [222]"
    by (simp only:)
  then have "fold (encode_step ?g ?d) [0..<K] (replicate PARITY 0)
             = [88, 172, 55, 142, 20, 253, 138, 24, 185, 179, 47, 148, 228, 253, 55, 59, 12, 225,
         197, 176, 157, 33, 33, 162, 194, 16, 126, 54, 174, 52, 64, 116]"
    by (simp only: fold_append comp_apply zeros fold.simps last id_apply)
  then show ?thesis
    by (simp add: rs_encode_block_def K_def)
qed

lemma xor_zero_word: "length w = n \<Longrightarrow> map2 (XOR) (replicate n 0) w = w" for w :: "byte list"
  by (induction w arbitrary: n) auto

section \<open>Encoder and decoder together\<close>

lemma decode_bit_flip:
  "rs_decode_block (1 # replicate 254 0) = Some (- 1, 1 # replicate 254 0)"
  by (simp add: rs_decode_block_def syndromes_bit_flip syndromes_bit_flip_nonzero bm_bit_flip
      find_bit_flip [unfolded One_nat_def] N_def)

subsection \<open>Blocks of a decoded file\<close>







theorem clean_block_status_witness:
  "length ([88, 172, 55, 142, 20, 253, 138, 24, 185, 179, 47, 148, 228, 253, 55, 59, 12, 225,
         197, 176, 157, 33, 33, 162, 194, 16, 126, 54, 174, 52, 64, 116, 1]
           @ replicate 222 (0 :: byte)) = N \<and>
   (\<exists>syn. compute_syndromes
            ([88, 172, 55, 142, 20, 253, 138, 24, 185, 179, 47, 148, 228, 253, 55, 59, 12, 225,
         197, 176, 157, 33, 33, 162, 194, 16, 126, 54, 174, 52, 64, 116, 1]
             @ replicate 222 0) = Some syn \<and>
          list_all (\<lambda>s. s = 0) syn \<and>
          rs_decode_block
            ([88, 172, 55, 142, 20, 253, 138, 24, 185, 179, 47, 148, 228, 253, 55, 59, 12, 225,
         197, 176, 157, 33, 33, 162, 194, 16, 126, 54, 174, 52, 64, 116, 1]
             @ replicate 222 0)
          = Some (0, [88, 172, 55, 142, 20, 253, 138, 24, 185, 179, 47, 148, 228, 253, 55, 59, 12, 225,
         197, 176, 157, 33, 33, 162, 194, 16, 126, 54, 174, 52, 64, 116, 1]
                     @ replicate 222 0)) \<and>
   length ([88, 244, 195, 77, 89, 164, 46, 54, 143, 60, 19, 135, 99, 158, 169, 146, 158, 127,
         186, 10, 151, 182, 151, 53, 247, 231, 153, 175, 1, 53, 117, 1]
           @ replicate 223 (0 :: byte)) = N \<and>
   (\<exists>syn. compute_syndromes
            ([88, 244, 195, 77, 89, 164, 46, 54, 143, 60, 19, 135, 99, 158, 169, 146, 158, 127,
         186, 10, 151, 182, 151, 53, 247, 231, 153, 175, 1, 53, 117, 1]
             @ replicate 223 0) = Some syn \<and>
          \<not> list_all (\<lambda>s. s = 0) syn \<and> fst (berlekamp_massey syn) = 0 \<and>
          rs_decode_block
            ([88, 244, 195, 77, 89, 164, 46, 54, 143, 60, 19, 135, 99, 158, 169, 146, 158, 127,
         186, 10, 151, 182, 151, 53, 247, 231, 153, 175, 1, 53, 117, 1]
             @ replicate 223 0)
          = Some (0, [88, 244, 195, 77, 89, 164, 46, 54, 143, 60, 19, 135, 99, 158, 169, 146, 158, 127,
         186, 10, 151, 182, 151, 53, 247, 231, 153, 175, 1, 53, 117, 1]
                     @ replicate 223 0))"
proof -
  let ?g = "[88, 172, 55, 142, 20, 253, 138, 24, 185, 179, 47, 148, 228, 253, 55, 59, 12, 225,
         197, 176, 157, 33, 33, 162, 194, 16, 126, 54, 174, 52, 64, 116, 1]
            @ replicate 222 (0 :: byte)"
  let ?h = "[88, 244, 195, 77, 89, 164, 46, 54, 143, 60, 19, 135, 99, 158, 169, 146, 158, 127,
         186, 10, 151, 182, 151, 53, 247, 231, 153, 175, 1, 53, 117, 1]
            @ replicate 223 (0 :: byte)"
  have lg: "length ?g = N" by (simp add: N_def)
  have lh: "length ?h = N" by (simp add: N_def)
  have zg: "list_all (\<lambda>s. s = 0) ([0, 0, 0, 0, 0, 0, 0, 0, 0, 0, 0, 0, 0, 0, 0, 0, 0, 0, 0, 0, 0, 0, 0, 0, 0, 0, 0,
         0, 0, 0, 0, 0] :: byte list)"
    by simp
  have zh: "\<not> list_all (\<lambda>s. s = 0) ([146, 0, 0, 0, 0, 0, 0, 0, 0, 0, 0, 0, 0, 0, 0, 0, 0, 0, 0, 0, 0, 0, 0, 0, 0, 0, 0,
         0, 0, 0, 0, 0] :: byte list)"
    by simp
  have dh: "fst (berlekamp_massey [146, 0, 0, 0, 0, 0, 0, 0, 0, 0, 0, 0, 0, 0, 0, 0, 0, 0, 0, 0, 0, 0, 0, 0, 0, 0, 0,
         0, 0, 0, 0, 0]) = 0"
    by (simp only: bm_locator_free fst_conv)
  from clean_block_status [OF lg] have "rs_decode_block ?g = Some (0, ?g)"
    using zg by (simp only: syndromes_generator_word) simp
  moreover from clean_block_status [OF lh] have "rs_decode_block ?h = Some (0, ?h)"
    using zh dh by (simp only: syndromes_locator_free_word) simp
  ultimately show ?thesis
    using lg lh zg zh dh syndromes_generator_word syndromes_locator_free_word by blast
qed


text \<open>
  Claim C2 at a failing input. The data block of 223 zero bytes encodes to the zero
  codeword; flipping bit 0 of its first byte is an error pattern of symbol weight 1. The
  decoder returns status \<open>-1\<close> and leaves the flipped byte in place: the locator comes out
  as \<open>x\<close>, which has no root among the 255 positions, so the count of positions found, 0,
  differs from the degree 1.
\<close>

theorem bit_flip_not_corrected:
  "\<exists>g. generate_polynomial = Some g \<and>
       rs_encode_block g (replicate 223 0) = replicate 255 0 \<and>
       rs_decode_block (map2 (XOR) (rs_encode_block g (replicate 223 0)) (1 # replicate 254 0))
         = Some (- 1, 1 # replicate 254 0)"
proof -
  let ?g = "[88, 172, 55, 142, 20, 253, 138, 24, 185, 179, 47, 148, 228, 253, 55, 59, 12, 225,
         197, 176, 157, 33, 33, 162, 194, 16, 126, 54, 174, 52, 64, 116, 1]"
  have x: "map2 (XOR) (replicate 255 0) (1 # replicate 254 (0 :: byte)) = 1 # replicate 254 0"
    by (rule xor_zero_word) simp
  have e: "rs_encode_block ?g (replicate 223 0) = replicate 255 0"
    by (rule rs_encode_zero)
  have d: "rs_decode_block (map2 (XOR) (rs_encode_block ?g (replicate 223 0))
             (1 # replicate 254 0)) = Some (- 1, 1 # replicate 254 0)"
    by (simp only: e x decode_bit_flip)
  show ?thesis
    using generate_polynomial_value e d by blast
qed

text \<open>
  Claim C10 at a failing input. For the received word with the byte 2 at position 0 and
  zeros elsewhere, the locator has degree 3 with a nonzero coefficient of \<open>x^3\<close>. At position
  86 the exponent \<^verbatim>\<open>(255 - 86 * 3) % 255\<close> is \<open>-3\<close>, \<^verbatim>\<open>gf_pow\<close> indexes \<^verbatim>\<open>gf_exp\<close> at
  \<open>-3\<close>, and the decoder reads outside the table (\<open>None\<close> in the model).
\<close>

theorem chien_exponent_negative:
  "compute_syndromes (2 # replicate 254 0)
     = Some [2, 2, 2, 2, 2, 2, 2, 2, 2, 2, 2, 2, 2, 2, 2, 2, 2, 2, 2, 2, 2, 2, 2, 2, 2, 2, 2,
         2, 2, 2, 2, 2] \<and>
   berlekamp_massey [2, 2, 2, 2, 2, 2, 2, 2, 2, 2, 2, 2, 2, 2, 2, 2, 2, 2, 2, 2, 2, 2, 2, 2, 2, 2, 2,
         2, 2, 2, 2, 2]
     = (3,
        [3, 2, 5, 6, 0, 0, 0, 0, 0, 0, 0, 0, 0, 0, 0, 0, 0, 0, 0, 0, 0, 0, 0, 0, 0, 0, 0,
         0, 0, 0, 0, 0, 0],
        [6, 2, 8, 4, 4, 4, 4, 4, 4, 4, 4, 4, 4, 4, 4, 4, 4, 4, 4, 4, 4, 4, 4, 4, 4, 4, 4,
         4, 4, 4, 4, 4]) \<and>
   c_mod (255 - int 86 * int 3) 255 = - 3 \<and>
   gf_pow ALPHA (- 3) = None \<and>
   chien_sum [3, 2, 5, 6, 0, 0, 0, 0, 0, 0, 0, 0, 0, 0, 0, 0, 0, 0, 0, 0, 0, 0, 0, 0, 0, 0, 0,
         0, 0, 0, 0, 0, 0] 3 86 = None \<and>
   rs_decode_block (2 # replicate 254 0) = None"
proof -
  have a: "c_mod (255 - int 86 * int 3) 255 = - 3"
    by (simp add: c_mod_def)
  have b: "gf_pow ALPHA (- 3) = None"
    by (simp add: ALPHA_def gf_eval)
  have c: "chien_sum [3, 2, 5, 6, 0, 0, 0, 0, 0, 0, 0, 0, 0, 0, 0, 0, 0, 0, 0, 0, 0, 0, 0, 0, 0, 0, 0,
         0, 0, 0, 0, 0, 0] 3 86 = None"
    by (simp add: chien_sum_def ALPHA_def gf_eval list_eval loop_eval del: fold.simps)
  have d: "rs_decode_block (2 # replicate 254 0) = None"
    by (simp add: rs_decode_block_def syndromes_first_two bm_first_two find_first_two)
  show ?thesis
    by (intro conjI syndromes_first_two bm_first_two a b c d)
qed

text \<open>
  Claim C1 at a failing input. The encoder's codeword for the data block of 222 zero bytes
  followed by the byte 1 is the data followed by the 32 low coefficients of the generator
  polynomial. The decoder's syndromes of this codeword are not all zero, so the decoder does
  not return status 0: it goes on to a locator of degree 31 and a Chien search that reads
  \<^verbatim>\<open>gf_exp\<close> outside the table (\<open>None\<close> in the model).
\<close>

theorem encoded_block_not_clean:
  "\<exists>g. generate_polynomial = Some g \<and>
       rs_encode_block g (replicate 222 0 @ [1])
         = replicate 222 0 @
           [1, 88, 172, 55, 142, 20, 253, 138, 24, 185, 179, 47, 148, 228, 253, 55, 59, 12,
         225, 197, 176, 157, 33, 33, 162, 194, 16, 126, 54, 174, 52, 64, 116] \<and>
       compute_syndromes (rs_encode_block g (replicate 222 0 @ [1]))
         = Some [0, 139, 86, 229, 196, 222, 187, 142, 206, 243, 151, 40, 63, 230, 71, 39, 138, 220,
         178, 32, 27, 100, 52, 65, 60, 101, 190, 22, 216, 160, 97, 172] \<and>
       rs_decode_block (rs_encode_block g (replicate 222 0 @ [1])) = None"
proof -
  let ?g = "[88, 172, 55, 142, 20, 253, 138, 24, 185, 179, 47, 148, 228, 253, 55, 59, 12, 225,
         197, 176, 157, 33, 33, 162, 194, 16, 126, 54, 174, 52, 64, 116, 1]"
  have dec: "rs_decode_block
          (replicate 222 0 @
           [1, 88, 172, 55, 142, 20, 253, 138, 24, 185, 179, 47, 148, 228, 253, 55, 59, 12,
         225, 197, 176, 157, 33, 33, 162, 194, 16, 126, 54, 174, 52, 64, 116]) = None"
    by (simp add: rs_decode_block_def syndromes_encoded_unit bm_encoded_unit find_encoded_unit)
  have e: "rs_encode_block ?g (replicate 222 0 @ [1])
           = replicate 222 0 @
             [1, 88, 172, 55, 142, 20, 253, 138, 24, 185, 179, 47, 148, 228, 253, 55, 59, 12,
         225, 197, 176, 157, 33, 33, 162, 194, 16, 126, 54, 174, 52, 64, 116]"
    by (rule rs_encode_unit)
  have sy: "compute_syndromes (rs_encode_block ?g (replicate 222 0 @ [1]))
            = Some [0, 139, 86, 229, 196, 222, 187, 142, 206, 243, 151, 40, 63, 230, 71, 39, 138, 220,
         178, 32, 27, 100, 52, 65, 60, 101, 190, 22, 216, 160, 97, 172]"
    by (simp only: e syndromes_encoded_unit)
  have d: "rs_decode_block (rs_encode_block ?g (replicate 222 0 @ [1])) = None"
    by (simp only: e dec)
  show ?thesis
    using generate_polynomial_value e sy d by blast
qed


end
